theory Spec2Isabelle
  imports Complex_Main
begin

section \<open>Numbers\<close>

text \<open>
  The component, the generators and the analysis call are modelled with a TypeScript
  \<open>number\<close> as an exact real: \<open>+\<close>, \<open>-\<close> and \<open>*\<close> are the mathematical operations. This
  carries what is proved there about the order of events, the length of the series and
  the fields an update touches. The prices a live refresh stores depend on the rounding
  of doubles and on \<open>NaN\<close>; for them the fetch and the updater are modelled a second time
  on IEEE doubles, in the section on doubles below. Epoch milliseconds are integers.

  \<open>toFixed(2)\<close> works on the absolute value and takes the integer \<open>n\<close> for which
  \<open>n / 100\<close> is closest to it, the larger one on a tie; the sign is put back in front.
  \<open>toFixed2\<close> is the number its string denotes.
\<close>

definition toFixed2 :: "real \<Rightarrow> real" where
  "toFixed2 x =
     (if x < 0 then - (of_int \<lfloor>(- x) * 100 + 1 / 2\<rfloor> / 100)
      else of_int \<lfloor>x * 100 + 1 / 2\<rfloor> / 100)"

text \<open>\<open>Math.floor\<close>, with the result read as a number again.\<close>

definition Math_floor :: "real \<Rightarrow> real" where
  "Math_floor x = of_int \<lfloor>x\<rfloor>"

text \<open>A value returned by \<open>Math.random()\<close> lies in \<open>[0, 1)\<close>.\<close>

definition unit_draw :: "real \<Rightarrow> bool" where
  "unit_draw r \<longleftrightarrow> 0 \<le> r \<and> r < 1"

section \<open>types.ts\<close>

record 'n MarketDataPoint =
  timestamp :: int
  timeLabel :: string
  spotPrice :: 'n
  futurePrice :: 'n
  openInterest :: 'n
  volume :: 'n

record OptionSeries =
  expiry :: string
  code :: "string option"
  callOI :: real
  putOI :: real
  maxPain :: "real option"
  type :: "string option"

text \<open>A grounding source: title and uri.\<close>

type_synonym source = "string \<times> string"

record 'n MarketFetchResult =
  dataPoint :: "'n MarketDataPoint"
  optionSeries :: "OptionSeries list"
  sources :: "source list"

datatype Sentiment = BULLISH | BEARISH | NEUTRAL

datatype Trend = RISING | FALLING | STABLE

text \<open>
  The narrative fields of an analysis are strings. The two Thai literals of the fallback
  result of \<open>analyzeMarketData\<close> are kept as constructors of their own: \<open>ThaiConnectError\<close>
  is the summary ("cannot reach the AI or the API key is not valid, check the key and
  try again"), \<open>ThaiHoldTrading\<close> the recommendation ("hold off trading until the data is
  back to normal"). Every other text is \<open>Plain\<close>.
\<close>

datatype narrative = Plain string | ThaiConnectError | ThaiHoldTrading

record MarketAnalysis =
  sentiment :: Sentiment
  confidence :: real
  summary :: narrative
  recommendation :: narrative
  basis :: real
  oiTrend :: Trend
  priceTrend :: Trend
  support :: string
  resistance :: string
  sourceUrls :: "source list option"

datatype AnalysisStatus = IDLE | LOADING | SUCCESS | ERROR

datatype DataSourceMode = SIMULATION | LIVE_SEARCH

definition MOCK_START_PRICE :: real where
  "MOCK_START_PRICE = 2350"

definition MOCK_START_OI :: real where
  "MOCK_START_OI = 450000"

text \<open>
  What a call can throw: a \<open>TypeError\<close> (a field read from \<open>undefined\<close>), the error of
  \<open>getAI\<close>, a rejected remote call, and the error of \<open>fetchRealTimeMarketData\<close> when no
  price was found.
\<close>

datatype js_error = TypeError | ApiKeyMissing | RemoteFailure | NoValidPriceData

section \<open>services/marketData.ts\<close>

text \<open>
  One round of what the generators read from outside: the four values of \<open>Math.random()\<close>
  they use, the value of \<open>Date.now()\<close>, and the label \<open>toLocaleTimeString\<close> gives for the
  present moment.
\<close>

record entropy =
  rnd_change :: real
  rnd_premium :: real
  rnd_oi :: real
  rnd_volume :: real
  now :: int
  nowLabel :: string

definition valid_entropy :: "entropy \<Rightarrow> bool" where
  "valid_entropy e \<longleftrightarrow>
     unit_draw (rnd_change e) \<and> unit_draw (rnd_premium e) \<and>
     unit_draw (rnd_oi e) \<and> unit_draw (rnd_volume e)"

text \<open>
  \<open>generateTimeLabels\<close>: the loop runs \<open>i\<close> from \<open>count\<close> down to 1 and pushes the label of
  \<open>now - i * 15 * 60000\<close>. The formatting of a time of day depends on the locale and is
  the parameter \<open>fmt\<close>.
\<close>

definition generateTimeLabels :: "(int \<Rightarrow> string) \<Rightarrow> int \<Rightarrow> nat \<Rightarrow> string list" where
  "generateTimeLabels fmt t count =
     map (\<lambda>i. fmt (t - int i * 15 * 60000)) (rev [1..<Suc count])"

text \<open>The module variables \<open>lastSpot\<close>, \<open>lastFuture\<close>, \<open>lastOI\<close> and their initial values.\<close>

record sim_state =
  lastSpot :: real
  lastFuture :: real
  lastOI :: real

definition initial_sim_state :: sim_state where
  "initial_sim_state =
     \<lparr>lastSpot = MOCK_START_PRICE, lastFuture = MOCK_START_PRICE + 15, lastOI = MOCK_START_OI\<rparr>"

text \<open>
  The body of the loop of \<open>generateHistoricalData\<close> at index \<open>i\<close>; \<open>env i\<close> is what that
  iteration reads from \<open>Math.random()\<close> and \<open>Date.now()\<close>.
\<close>

definition historyChange :: "entropy \<Rightarrow> real" where
  "historyChange e = (rnd_change e - 1 / 2) * 5"

definition historyOiChange :: "entropy \<Rightarrow> real" where
  "historyOiChange e =
     (rnd_oi e - 1 / 2) * 1000 +
     (if historyChange e > 1 then 500 else if historyChange e < - 1 then - 500 else 0)"

definition historyStep ::
  "nat \<Rightarrow> string list \<Rightarrow> (nat \<Rightarrow> entropy) \<Rightarrow> nat \<Rightarrow>
   sim_state \<times> real MarketDataPoint list \<Rightarrow> sim_state \<times> real MarketDataPoint list" where
  "historyStep count labels env i acc =
     (let st = fst acc; data = snd acc; e = env i;
          change = historyChange e;
          futurePremium = 12 + rnd_premium e * 5;
          oiChange = historyOiChange e;
          newSpot = lastSpot st + change;
          newFuture = newSpot + futurePremium;
          newOI = lastOI st + oiChange
      in (\<lparr>lastSpot = newSpot, lastFuture = newFuture, lastOI = newOI\<rparr>,
          data @
          [\<lparr>timestamp = now e - (int count - int i) * 900000,
            timeLabel = labels ! i,
            spotPrice = toFixed2 newSpot,
            futurePrice = toFixed2 newFuture,
            openInterest = Math_floor newOI,
            volume = Math_floor (rnd_volume e * 5000 + 1000)\<rparr>]))"

text \<open>
  \<open>generateHistoricalData\<close>: the module state goes in and comes out. \<open>t0\<close> is the clock
  reading of \<open>generateTimeLabels\<close>, which always returns \<open>count\<close> labels, so \<open>labels ! i\<close> is
  in range in every iteration.
\<close>

definition historyLoop ::
  "nat \<Rightarrow> string list \<Rightarrow> (nat \<Rightarrow> entropy) \<Rightarrow> nat \<Rightarrow> sim_state \<Rightarrow>
   sim_state \<times> real MarketDataPoint list" where
  "historyLoop count labels env n st = fold (historyStep count labels env) [0..<n] (st, [])"

definition generateHistoricalData ::
  "(int \<Rightarrow> string) \<Rightarrow> int \<Rightarrow> (nat \<Rightarrow> entropy) \<Rightarrow> nat \<Rightarrow> sim_state \<Rightarrow>
   sim_state \<times> real MarketDataPoint list" where
  "generateHistoricalData fmt t0 env count st =
     historyLoop count (generateTimeLabels fmt t0 count) env count st"

text \<open>
  \<open>fetchLatestDataPoint\<close>: on an empty array \<open>lastPoint\<close> is \<open>undefined\<close> and reading its
  \<open>spotPrice\<close> throws.
\<close>

definition latestChange :: "entropy \<Rightarrow> real" where
  "latestChange e = (rnd_change e - 1 / 2) * 3"

definition latestOiChange :: "entropy \<Rightarrow> real" where
  "latestOiChange e = (rnd_oi e - 1 / 2) * 500"

definition fetchLatestDataPoint :: "real MarketDataPoint list \<Rightarrow> entropy \<Rightarrow> js_error + real MarketDataPoint" where
  "fetchLatestDataPoint previousData e =
     (if previousData = [] then Inl TypeError
      else
        let lastPoint = last previousData;
            change = latestChange e;
            futurePremium = 12 + rnd_premium e * 4;
            oiChange = latestOiChange e;
            newSpot = spotPrice lastPoint + change;
            newFuture = newSpot + futurePremium;
            newOI = openInterest lastPoint + oiChange
        in Inr \<lparr>timestamp = now e,
                timeLabel = nowLabel e,
                spotPrice = toFixed2 newSpot,
                futurePrice = toFixed2 newFuture,
                openInterest = Math_floor newOI,
                volume = Math_floor (rnd_volume e * 2000 + 500)\<rparr>)"

section \<open>services/geminiService.ts\<close>

text \<open>
  \<open>getAI\<close>: \<open>apiKey || process.env.API_KEY\<close>, where \<open>undefined\<close> and the empty string are
  falsy; without a key it throws. The client it returns is represented by its key.
\<close>

definition getAI :: "string option \<Rightarrow> string option \<Rightarrow> js_error + string" where
  "getAI apiKey envKey =
     (let key = (case apiKey of None \<Rightarrow> envKey | Some k \<Rightarrow> if k = [] then envKey else Some k)
      in case key of
           None \<Rightarrow> Inl ApiKeyMissing
         | Some k \<Rightarrow> if k = [] then Inl ApiKeyMissing else Inr k)"

text \<open>
  The reply of the remote model to \<open>fetchRealTimeMarketData\<close>, after the text processing
  of the function: the call is rejected; or the JSON block parses to \<open>null\<close>, and reading
  \<open>parsedData.spotPrice\<close> throws; or it resolves with the object parsed from the JSON
  block (\<open>None\<close> when there is no block or \<open>JSON.parse\<close> throws), the numbers the regular
  expression finds in the text, and the grounding sources. A parsed object has its
  numeric fields; \<open>p_optionSeries\<close> is \<open>None\<close> when that field is not an array. A block
  that parses to a value which is neither an object nor \<open>null\<close>, or to an object with a
  field that is not a number, is not represented. The type of the numbers is a
  parameter: the reals here, the doubles below.
\<close>

record 'n parsed_data =
  p_spotPrice :: 'n
  p_futurePrice :: 'n
  p_openInterest :: 'n
  p_volume :: 'n
  p_optionSeries :: "OptionSeries list option"

definition initialParsedData :: "real parsed_data" where
  "initialParsedData =
     \<lparr>p_spotPrice = 0, p_futurePrice = 0, p_openInterest = 0, p_volume = 0,
      p_optionSeries = Some []\<rparr>"

datatype 'n fetch_reply =
    FetchRejected
  | FetchRepliedNull
  | FetchReplied "'n parsed_data option" "'n list" "source list"

text \<open>
  The part of \<open>fetchRealTimeMarketData\<close> after the remote call has settled; \<open>t\<close> and \<open>lbl\<close>
  are \<open>Date.now()\<close> and the time label at that moment. The \<open>catch\<close> of the function
  throws the error again. On reals the only falsy number is 0; \<open>fetchSettle_ieee\<close> below
  is the same function on doubles, where \<open>NaN\<close> is falsy too and can be among the numbers
  of the fallback.
\<close>

definition fetchSettle :: "real fetch_reply \<Rightarrow> int \<Rightarrow> string \<Rightarrow> js_error + real MarketFetchResult" where
  "fetchSettle reply t lbl =
     (case reply of
        FetchRejected \<Rightarrow> Inl RemoteFailure
      | FetchRepliedNull \<Rightarrow> Inl TypeError
      | FetchReplied parsed numbers srcs \<Rightarrow>
          let parsedData = (case parsed of None \<Rightarrow> initialParsedData | Some d \<Rightarrow> d)
          in if p_spotPrice parsedData = 0 \<and> length numbers < 3 then Inl NoValidPriceData
             else
               let checked =
                     (if p_spotPrice parsedData = 0
                      then parsedData\<lparr>p_spotPrice := numbers ! 0,
                                       p_futurePrice := numbers ! 1,
                                       p_openInterest := numbers ! 2\<rparr>
                      else parsedData)
               in Inr \<lparr>dataPoint =
                         \<lparr>timestamp = t, timeLabel = lbl,
                          spotPrice = p_spotPrice checked,
                          futurePrice = p_futurePrice checked,
                          openInterest = p_openInterest checked,
                          volume = (if p_volume checked = 0 then 1000 else p_volume checked)\<rparr>,
                       optionSeries = (case p_optionSeries checked of None \<Rightarrow> [] | Some os \<Rightarrow> os),
                       sources = srcs\<rparr>)"

definition fetchRealTimeMarketData ::
  "string option \<Rightarrow> string option \<Rightarrow> real fetch_reply \<Rightarrow> int \<Rightarrow> string \<Rightarrow> js_error + real MarketFetchResult" where
  "fetchRealTimeMarketData apiKey envKey reply t lbl =
     (case getAI apiKey envKey of
        Inl err \<Rightarrow> Inl err
      | Inr ai \<Rightarrow> fetchSettle reply t lbl)"

text \<open>
  The reply of the remote model to \<open>analyzeMarketData\<close>: the call is rejected, the text is
  empty, the text does not parse to an object, or it parses to an analysis.
\<close>

datatype analyze_reply = AnalyzeRejected | AnalyzeEmpty | AnalyzeMalformed | AnalyzeParsed MarketAnalysis

definition fallbackAnalysis :: "real \<Rightarrow> MarketAnalysis" where
  "fallbackAnalysis b =
     \<lparr>sentiment = NEUTRAL, confidence = 0, summary = ThaiConnectError,
      recommendation = ThaiHoldTrading, basis = b, oiTrend = STABLE, priceTrend = STABLE,
      support = ''-'', resistance = ''-'', sourceUrls = Some []\<rparr>"

text \<open>
  \<open>analyzeMarketData\<close> in two parts. \<open>analyzePrefix\<close> is what runs before the \<open>try\<close>:
  \<open>getAI\<close>, then the reads of \<open>latest\<close> and \<open>previous\<close> (on an empty array \<open>latest\<close> is
  \<open>undefined\<close> and reading its \<open>spotPrice\<close> throws); of the metrics only \<open>basis\<close> reaches
  the result, the other two go into the prompt. \<open>analyzeSettle\<close> is the \<open>try\<close> with its
  \<open>catch\<close>, once the remote call has settled. The user prompt is part of the prompt text
  only.
\<close>

definition analyzePrefix :: "real MarketDataPoint list \<Rightarrow> string option \<Rightarrow> string option \<Rightarrow> js_error + real" where
  "analyzePrefix series apiKey envKey =
     (case getAI apiKey envKey of
        Inl err \<Rightarrow> Inl err
      | Inr ai \<Rightarrow>
          if series = [] then Inl TypeError
          else let latest = last series in Inr (futurePrice latest - spotPrice latest))"

definition analyzeSettle :: "real \<Rightarrow> source list \<Rightarrow> analyze_reply \<Rightarrow> MarketAnalysis" where
  "analyzeSettle b srcs reply =
     (case reply of
        AnalyzeParsed a \<Rightarrow> a\<lparr>sourceUrls := Some srcs\<rparr>
      | _ \<Rightarrow> fallbackAnalysis b)"

definition analyzeMarketData ::
  "real MarketDataPoint list \<Rightarrow> source list \<Rightarrow> string option \<Rightarrow> string option \<Rightarrow> string option \<Rightarrow>
   analyze_reply \<Rightarrow> js_error + MarketAnalysis" where
  "analyzeMarketData series srcs apiKey envKey userPrompt reply =
     (case analyzePrefix series apiKey envKey of
        Inl err \<Rightarrow> Inl err
      | Inr b \<Rightarrow> Inr (analyzeSettle b srcs reply))"

section \<open>App.tsx: the two updaters of the series\<close>

text \<open>
  The updater of the simulation loop,
  \<open>prev => [...prev.slice(1), fetchLatestDataPoint(prev)]\<close>.
\<close>

definition simulationUpdate :: "real MarketDataPoint list \<Rightarrow> entropy \<Rightarrow> js_error + real MarketDataPoint list" where
  "simulationUpdate prev e =
     (case fetchLatestDataPoint prev e of
        Inl err \<Rightarrow> Inl err
      | Inr p \<Rightarrow> Inr (drop 1 prev @ [p]))"

text \<open>The updater applied once per tick; it stops at the first error.\<close>

fun simulationRun :: "real MarketDataPoint list \<Rightarrow> entropy list \<Rightarrow> js_error + real MarketDataPoint list" where
  "simulationRun prev [] = Inr prev"
| "simulationRun prev (e # es) =
     (case simulationUpdate prev e of
        Inl err \<Rightarrow> Inl err
      | Inr new \<Rightarrow> simulationRun new es)"

text \<open>The points \<open>fetchLatestDataPoint\<close> returns along such a run, in the order of arrival.\<close>

fun generatedPoints :: "real MarketDataPoint list \<Rightarrow> entropy list \<Rightarrow> real MarketDataPoint list" where
  "generatedPoints prev [] = []"
| "generatedPoints prev (e # es) =
     (case fetchLatestDataPoint prev e of
        Inl err \<Rightarrow> []
      | Inr p \<Rightarrow> p # generatedPoints (drop 1 prev @ [p]) es)"

text \<open>
  The updater of \<open>fetchLiveValues\<close>: the history is shifted by the difference between the
  fetched spot price and the last stored one, the oldest point is dropped and the fetched
  point appended. On an empty array \<open>lastSimulated\<close> is \<open>undefined\<close> and reading its
  \<open>spotPrice\<close> throws. This is the updater on exact reals, as the component model
  applies it; \<open>liveUpdate_ieee\<close> below is the same updater on doubles, and what is proved
  about the prices it stores is proved there.
\<close>

definition adjustPoint :: "real \<Rightarrow> real MarketDataPoint \<Rightarrow> real MarketDataPoint" where
  "adjustPoint priceDiff p =
     p\<lparr>spotPrice := toFixed2 (spotPrice p + priceDiff),
       futurePrice := toFixed2 (futurePrice p + priceDiff)\<rparr>"

definition liveUpdate :: "real MarketDataPoint list \<Rightarrow> real MarketDataPoint \<Rightarrow> js_error + real MarketDataPoint list" where
  "liveUpdate prev dp =
     (if prev = [] then Inl TypeError
      else
        let lastSimulated = last prev;
            priceDiff = spotPrice dp - spotPrice lastSimulated;
            adjustedHistory = map (adjustPoint priceDiff) prev;
            newData = drop 1 adjustedHistory @ [dp]
        in Inr newData)"

section \<open>App.tsx: the component state and its transitions\<close>

text \<open>
  The component runs on one thread; an \<open>async\<close> call is suspended at each \<open>await\<close> and
  resumed when the promise settles. A suspended call is a value of \<open>call\<close>, with a number
  that identifies it:
  \<^item> \<open>AwaitFetch\<close>: \<open>fetchLiveValues\<close> waiting for \<open>fetchRealTimeMarketData\<close>, with the
    \<open>apiKey\<close> and \<open>userQuestion\<close> of its closure;
  \<^item> \<open>AwaitAnalyze\<close>: \<open>fetchLiveValues\<close> waiting for \<open>analyzeMarketData\<close>, with the basis
    and the sources that call was given;
  \<^item> \<open>AwaitManual\<close>: the promise of \<open>analyzeMarketData\<close> in the simulation branch of
    \<open>handleManualRefresh\<close>, with its \<open>then\<close> callback.
\<close>

datatype call =
    AwaitFetch nat string string
  | AwaitAnalyze nat real "source list"
  | AwaitManual nat real

fun call_id :: "call \<Rightarrow> nat" where
  "call_id (AwaitFetch n _ _) = n"
| "call_id (AwaitAnalyze n _ _) = n"
| "call_id (AwaitManual n _) = n"

definition find_call :: "nat \<Rightarrow> call list \<Rightarrow> call option" where
  "find_call cid cs = find (\<lambda>c. call_id c = cid) cs"

definition drop_call :: "nat \<Rightarrow> call list \<Rightarrow> call list" where
  "drop_call cid cs = filter (\<lambda>c. call_id c \<noteq> cid) cs"

text \<open>
  The state hooks of \<open>App\<close>, the value of \<open>process.env.API_KEY\<close>, the suspended calls and
  the number of the next call. \<open>statusLog\<close> is a history variable: every value given to
  \<open>setAnalysisStatus\<close>, in order.
\<close>

record app_state =
  data :: "real MarketDataPoint list"
  optionData :: "OptionSeries list"
  analysis :: "MarketAnalysis option"
  analysisStatus :: AnalysisStatus
  dataMode :: DataSourceMode
  isDataLoading :: bool
  apiKey :: string
  userQuestion :: string
  isAutoUpdate :: bool
  nextUpdateCountdown :: nat
  env_API_KEY :: "string option"
  pending :: "call list"
  nextCall :: nat
  statusLog :: "AnalysisStatus list"

text \<open>
  The initial values of the hooks, with the series the first effect stores
  (\<open>generateHistoricalData(50)\<close> in the source).
\<close>

definition initialApp :: "real MarketDataPoint list \<Rightarrow> OptionSeries list \<Rightarrow> string option \<Rightarrow> app_state" where
  "initialApp series opts envKey =
     \<lparr>data = series, optionData = opts, analysis = None, analysisStatus = IDLE,
      dataMode = LIVE_SEARCH, isDataLoading = False, apiKey = [], userQuestion = [],
      isAutoUpdate = False, nextUpdateCountdown = 60, env_API_KEY = envKey, pending = [],
      nextCall = 0, statusLog = []\<rparr>"

definition setAnalysisStatus :: "AnalysisStatus \<Rightarrow> app_state \<Rightarrow> app_state" where
  "setAnalysisStatus v s = s\<lparr>analysisStatus := v, statusLog := statusLog s @ [v]\<rparr>"

text \<open>The \<open>catch\<close> and \<open>finally\<close> blocks of \<open>fetchLiveValues\<close>.\<close>

definition fetchLiveValues_failed :: "app_state \<Rightarrow> app_state" where
  "fetchLiveValues_failed s = (setAnalysisStatus ERROR s)\<lparr>isDataLoading := False\<rparr>"

text \<open>
  A call of \<open>fetchLiveValues\<close>, up to its first \<open>await\<close>. \<open>fetchRealTimeMarketData\<close> runs
  \<open>getAI\<close> before it suspends, so without a key the call fails at once.
\<close>

definition fetchLiveValues :: "app_state \<Rightarrow> app_state" where
  "fetchLiveValues s =
     (let s1 = setAnalysisStatus LOADING (s\<lparr>isDataLoading := True\<rparr>)
      in case getAI (Some (apiKey s)) (env_API_KEY s) of
           Inl err \<Rightarrow> fetchLiveValues_failed s1
         | Inr ai \<Rightarrow>
             s1\<lparr>pending := pending s1 @ [AwaitFetch (nextCall s1) (apiKey s) (userQuestion s)],
                nextCall := Suc (nextCall s1)\<rparr>)"

text \<open>
  \<open>fetchLiveValues\<close> resumed when the fetch of call \<open>cid\<close> settles: on an error the \<open>catch\<close>
  runs; otherwise the series and the options are updated and \<open>analyzeMarketData\<close> is
  called, which can throw before it suspends. The updater of the series is taken to have
  run when \<open>analyzeMarketData\<close> is called, as the source intends with \<open>updatedData\<close>, and
  an error of the updater to reach the \<open>catch\<close>.
\<close>

definition fetchResolved :: "nat \<Rightarrow> real fetch_reply \<Rightarrow> int \<Rightarrow> string \<Rightarrow> app_state \<Rightarrow> app_state" where
  "fetchResolved cid reply t lbl s =
     (case find_call cid (pending s) of
        Some (AwaitFetch _ key question) \<Rightarrow>
          (let others = drop_call cid (pending s)
           in case fetchSettle reply t lbl of
                Inl err \<Rightarrow> fetchLiveValues_failed (s\<lparr>pending := others\<rparr>)
              | Inr res \<Rightarrow>
                  (case liveUpdate (data s) (dataPoint res) of
                     Inl err \<Rightarrow> fetchLiveValues_failed (s\<lparr>pending := others\<rparr>)
                   | Inr newData \<Rightarrow>
                       (let s1 = s\<lparr>data := newData,
                                    optionData := (if optionSeries res \<noteq> [] then optionSeries res
                                                   else optionData s)\<rparr>
                        in case analyzePrefix (if newData \<noteq> [] then newData else [dataPoint res])
                                  (Some key) (env_API_KEY s) of
                             Inl err \<Rightarrow> fetchLiveValues_failed (s1\<lparr>pending := others\<rparr>)
                           | Inr b \<Rightarrow> s1\<lparr>pending := others @ [AwaitAnalyze cid b (sources res)]\<rparr>)))
      | _ \<Rightarrow> s)"

text \<open>
  The analysis of call \<open>cid\<close> settles: the rest of the \<open>try\<close> and the \<open>finally\<close> of
  \<open>fetchLiveValues\<close>, or the \<open>then\<close> callback of \<open>handleManualRefresh\<close>.
\<close>

definition analyzeResolved :: "nat \<Rightarrow> analyze_reply \<Rightarrow> app_state \<Rightarrow> app_state" where
  "analyzeResolved cid reply s =
     (let others = drop_call cid (pending s)
      in case find_call cid (pending s) of
           Some (AwaitAnalyze _ b srcs) \<Rightarrow>
             (setAnalysisStatus SUCCESS
                (s\<lparr>analysis := Some (analyzeSettle b srcs reply), pending := others\<rparr>))
               \<lparr>nextUpdateCountdown := 60, isDataLoading := False\<rparr>
         | Some (AwaitManual _ b) \<Rightarrow>
             setAnalysisStatus SUCCESS
               (s\<lparr>analysis := Some (analyzeSettle b [] reply), pending := others\<rparr>)
         | _ \<Rightarrow> s)"

text \<open>
  \<open>handleManualRefresh\<close>. In the simulation branch the promise has no rejection handler:
  when \<open>analyzeMarketData\<close> throws, nothing more happens.
\<close>

definition handleManualRefresh :: "app_state \<Rightarrow> app_state" where
  "handleManualRefresh s =
     (if dataMode s = LIVE_SEARCH then fetchLiveValues s
      else
        let s1 = setAnalysisStatus LOADING s
        in case analyzePrefix (data s) (Some (apiKey s)) (env_API_KEY s) of
             Inl err \<Rightarrow> s1
           | Inr b \<Rightarrow>
               s1\<lparr>pending := pending s1 @ [AwaitManual (nextCall s1) b],
                  nextCall := Suc (nextCall s1)\<rparr>)"

text \<open>
  The refresh button of \<open>AnalysisPanel\<close>: \<open>onClick={onRefresh}\<close> with
  \<open>disabled={status === AnalysisStatus.LOADING}\<close>; a disabled button does not call its
  handler.
\<close>

definition refreshButton :: "app_state \<Rightarrow> app_state" where
  "refreshButton s = (if analysisStatus s = LOADING then s else handleManualRefresh s)"

text \<open>
  \<open>toggleMode\<close>, followed by the effects that depend on \<open>dataMode\<close>: the cleanup of the
  auto-update effect resets the countdown, and the effect of the mode change calls
  \<open>fetchLiveValues\<close> when the new mode is the live one.
\<close>

definition toggleMode :: "app_state \<Rightarrow> app_state" where
  "toggleMode s =
     (let s1 = (setAnalysisStatus IDLE
                  (s\<lparr>dataMode := (if dataMode s = SIMULATION then LIVE_SEARCH else SIMULATION),
                     analysis := None\<rparr>))
                 \<lparr>isAutoUpdate := False, nextUpdateCountdown := 60\<rparr>
      in if dataMode s1 = LIVE_SEARCH then fetchLiveValues s1 else s1)"

definition toggleAutoUpdate :: "app_state \<Rightarrow> app_state" where
  "toggleAutoUpdate s = s\<lparr>isAutoUpdate := \<not> isAutoUpdate s, nextUpdateCountdown := 60\<rparr>"

text \<open>
  The two intervals of the auto-update effect exist only in live mode with auto-update
  on: every 60 seconds \<open>fetchLiveValues()\<close>, every second the countdown.
\<close>

definition autoTick :: "app_state \<Rightarrow> app_state" where
  "autoTick s = (if dataMode s = LIVE_SEARCH \<and> isAutoUpdate s then fetchLiveValues s else s)"

definition countdownTick :: "app_state \<Rightarrow> app_state" where
  "countdownTick s =
     (if dataMode s = LIVE_SEARCH \<and> isAutoUpdate s
      then s\<lparr>nextUpdateCountdown :=
               (if 0 < nextUpdateCountdown s then nextUpdateCountdown s - 1 else 60)\<rparr>
      else s)"

text \<open>
  The interval of the simulation effect exists only in simulation mode with a non-empty
  series. \<open>opts\<close> is \<open>Some\<close> of the new option series when \<open>Math.random() > 0.7\<close>.
\<close>

definition simulationTick :: "entropy \<Rightarrow> OptionSeries list option \<Rightarrow> app_state \<Rightarrow> app_state" where
  "simulationTick e opts s =
     (if dataMode s = SIMULATION \<and> data s \<noteq> [] then
        (case simulationUpdate (data s) e of
           Inl err \<Rightarrow> s
         | Inr new \<Rightarrow>
             s\<lparr>data := new,
               optionData := (case opts of None \<Rightarrow> optionData s | Some os \<Rightarrow> os)\<rparr>)
      else s)"

text \<open>
  What can happen to the component. Typing into one of the two inputs gives
  \<open>fetchLiveValues\<close> a new identity, so the auto-update effect is cleaned up and the
  countdown reset.
\<close>

datatype event =
    AutoTick
  | CountdownTick
  | SimulationTick entropy "OptionSeries list option"
  | RefreshClick
  | ToggleModeClick
  | ToggleAutoClick
  | SetApiKey string
  | SetUserQuestion string
  | FetchResolved nat "real fetch_reply" int string
  | AnalyzeResolved nat analyze_reply

fun step :: "event \<Rightarrow> app_state \<Rightarrow> app_state" where
  "step AutoTick s = autoTick s"
| "step CountdownTick s = countdownTick s"
| "step (SimulationTick e opts) s = simulationTick e opts s"
| "step RefreshClick s = refreshButton s"
| "step ToggleModeClick s = toggleMode s"
| "step ToggleAutoClick s = toggleAutoUpdate s"
| "step (SetApiKey k) s = s\<lparr>apiKey := k, nextUpdateCountdown := 60\<rparr>"
| "step (SetUserQuestion q) s = s\<lparr>userQuestion := q, nextUpdateCountdown := 60\<rparr>"
| "step (FetchResolved cid reply t lbl) s = fetchResolved cid reply t lbl s"
| "step (AnalyzeResolved cid reply) s = analyzeResolved cid reply s"

definition run :: "event list \<Rightarrow> app_state \<Rightarrow> app_state" where
  "run evs s = fold step evs s"

text \<open>Every suspended call has a number below the next one to be given out.\<close>

definition fresh_calls :: "app_state \<Rightarrow> bool" where
  "fresh_calls s \<longleftrightarrow> list_all (\<lambda>c. call_id c < nextCall s) (pending s)"

section \<open>Numbers as IEEE doubles\<close>


definition round_half_even :: "real \<Rightarrow> int" where
  "round_half_even y =
     (let n = \<lfloor>y\<rfloor>; r = y - of_int n
      in if r < 1 / 2 then n else if 1 / 2 < r then n + 1 else if even n then n else n + 1)"













section \<open>App.tsx: the mounted component\<close>

text \<open>
  The state after the effects of the first render: the series is
  \<open>generateHistoricalData(50)\<close> on the initial module state, and the effect of the mode calls
  \<open>fetchLiveValues\<close>, the mode being the live one.
\<close>

definition mountApp ::
  "(int \<Rightarrow> string) \<Rightarrow> int \<Rightarrow> (nat \<Rightarrow> entropy) \<Rightarrow> OptionSeries list \<Rightarrow> string option \<Rightarrow> app_state" where
  "mountApp fmt t0 env opts envKey =
     fetchLiveValues
       (initialApp (snd (generateHistoricalData fmt t0 env 50 initial_sim_state)) opts envKey)"

text \<open>Ticks of the simulation interval, each with what it reads from outside.\<close>

definition simulationTicks :: "(entropy \<times> OptionSeries list option) list \<Rightarrow> event list" where
  "simulationTicks ticks = map (\<lambda>(e, opts). SimulationTick e opts) ticks"

text \<open>
  What a cycle with a failed fetch leaves behind, from the state \<open>s\<close> before it to the
  state \<open>s'\<close> after it: \<open>LOADING\<close> and \<open>ERROR\<close> were written to the status, in this order,
  and the series, the options, the analysis, the suspended calls, auto-update and the
  mode are as before.
\<close>

definition failed_cycle :: "app_state \<Rightarrow> app_state \<Rightarrow> bool" where
  "failed_cycle s s' \<longleftrightarrow>
     statusLog s' = statusLog s @ [LOADING, ERROR] \<and> analysisStatus s' = ERROR \<and>
     data s' = data s \<and> optionData s' = optionData s \<and> analysis s' = analysis s \<and>
     pending s' = pending s \<and> \<not> isDataLoading s' \<and>
     isAutoUpdate s' = isAutoUpdate s \<and> dataMode s' = dataMode s"

section \<open>Example values\<close>

definition mkPoint :: "int \<Rightarrow> real \<Rightarrow> real \<Rightarrow> real \<Rightarrow> real MarketDataPoint" where
  "mkPoint t s f oi =
     \<lparr>timestamp = t, timeLabel = ''10:00'', spotPrice = s, futurePrice = f,
      openInterest = oi, volume = 1200\<rparr>"

definition exHistory :: "real MarketDataPoint list" where
  "exHistory = [mkPoint 1000 100 112 450000, mkPoint 2000 102 115 450100, mkPoint 3000 101 113 449900]"

definition exFetched :: "real MarketDataPoint" where
  "exFetched = mkPoint 4000 150 163 470000"

definition exEntropy :: entropy where
  "exEntropy =
     \<lparr>rnd_change = 9 / 10, rnd_premium = 1 / 2, rnd_oi = 1 / 2, rnd_volume = 1 / 4,
      now = 1700000000000, nowLabel = ''10:15''\<rparr>"

definition exDown :: entropy where
  "exDown = exEntropy\<lparr>rnd_change := 1 / 10\<rparr>"

definition exEnv :: "nat \<Rightarrow> entropy" where
  "exEnv i = exEntropy"

definition exFmt :: "int \<Rightarrow> string" where
  "exFmt t = ''--:--''"

text \<open>The component in live mode, after a key was typed and auto-update switched on.\<close>

definition exLive :: app_state where
  "exLive = (initialApp exHistory [] None)\<lparr>apiKey := ''key'', isAutoUpdate := True\<rparr>"

definition exOne :: app_state where
  "exOne = run [AutoTick] exLive"

definition exBusy :: app_state where
  "exBusy = run [AutoTick, AutoTick] exLive"

definition exReply :: "real \<Rightarrow> real fetch_reply" where
  "exReply q =
     FetchReplied
       (Some \<lparr>p_spotPrice = q, p_futurePrice = q + 13, p_openInterest = 470000, p_volume = 0,
              p_optionSeries = None\<rparr>) [] []"

text \<open>
  The component before the effects of its first render and after them, without any key;
  then switched to simulation mode, or given a key and auto-update.
\<close>

definition exInit :: app_state where
  "exInit =
     initialApp (snd (generateHistoricalData exFmt 1700000000000 exEnv 50 initial_sim_state)) [] None"

definition exMount :: app_state where
  "exMount = mountApp exFmt 1700000000000 exEnv [] None"

definition exSim :: app_state where
  "exSim = run [ToggleModeClick] exMount"

definition exReady :: app_state where
  "exReady = run [SetApiKey ''key'', ToggleAutoClick] exMount"

definition exTicks50 :: "(entropy \<times> OptionSeries list option) list" where
  "exTicks50 = replicate 50 (exEntropy, None)"







section \<open>Rounding\<close>

lemma floor_half_close:
  "\<bar>of_int \<lfloor>y * 100 + 1 / 2\<rfloor> / 100 - y\<bar> \<le> 1 / 200" for y :: real
proof -
  have "of_int \<lfloor>y * 100 + 1 / 2\<rfloor> \<le> y * 100 + 1 / 2"
    "y * 100 + 1 / 2 < of_int \<lfloor>y * 100 + 1 / 2\<rfloor> + 1"
    by linarith+
  then show ?thesis by linarith
qed

lemma toFixed2_close: "\<bar>toFixed2 x - x\<bar> \<le> 1 / 200"
proof (cases "x < 0")
  case True
  then have "toFixed2 x - x = - (of_int \<lfloor>(- x) * 100 + 1 / 2\<rfloor> / 100 - (- x))"
    by (simp add: toFixed2_def)
  then have "\<bar>toFixed2 x - x\<bar> = \<bar>of_int \<lfloor>(- x) * 100 + 1 / 2\<rfloor> / 100 - (- x)\<bar>"
    by (simp only: abs_minus_cancel)
  then show ?thesis using floor_half_close [of "- x"] by simp
next
  case False
  then show ?thesis using floor_half_close [of x] by (simp add: toFixed2_def)
qed

section \<open>Rounding to the nearest double\<close>




lemma round_half_even_int: "round_half_even (of_int n) = n"
  by (simp add: round_half_even_def)












section \<open>The history adjustment of a live refresh\<close>

lemma liveUpdate_Inr:
  "prev \<noteq> [] \<Longrightarrow>
   liveUpdate prev dp =
     Inr (drop 1 (map (adjustPoint (spotPrice dp - spotPrice (last prev))) prev) @ [dp])"
  by (simp add: liveUpdate_def Let_def)

lemma liveUpdate_nth:
  assumes "prev \<noteq> []" and "Suc i < length prev"
  shows "(drop 1 (map (adjustPoint d) prev) @ [dp]) ! i = adjustPoint d (prev ! Suc i)"
  using assms by (simp add: nth_append)

lemma exHistory_liveUpdate:
  "liveUpdate exHistory exFetched =
     Inr [mkPoint 2000 151 164 450100, mkPoint 3000 150 162 449900, exFetched]"
  by (simp add: liveUpdate_def exHistory_def exFetched_def mkPoint_def adjustPoint_def
      toFixed2_def Let_def)

text \<open>
  C9. The history adjustment rewrites only the two prices: every surviving point keeps the
  open interest, volume, timestamp and time label it had before.
\<close>

theorem liveUpdate_frame:
  assumes "prev \<noteq> []"
  shows "\<exists>new. liveUpdate prev dp = Inr new \<and>
           (\<forall>i. Suc i < length prev \<longrightarrow>
              openInterest (new ! i) = openInterest (prev ! Suc i) \<and>
              volume (new ! i) = volume (prev ! Suc i) \<and>
              timestamp (new ! i) = timestamp (prev ! Suc i) \<and>
              timeLabel (new ! i) = timeLabel (prev ! Suc i))"
proof -
  let ?d = "spotPrice dp - spotPrice (last prev)"
  let ?new = "drop 1 (map (adjustPoint ?d) prev) @ [dp]"
  have eq: "liveUpdate prev dp = Inr ?new"
    using assms by (rule liveUpdate_Inr)
  have "openInterest (?new ! i) = openInterest (prev ! Suc i) \<and>
        volume (?new ! i) = volume (prev ! Suc i) \<and>
        timestamp (?new ! i) = timestamp (prev ! Suc i) \<and>
        timeLabel (?new ! i) = timeLabel (prev ! Suc i)"
    if "Suc i < length prev" for i
  proof -
    have "?new ! i = adjustPoint ?d (prev ! Suc i)"
      using assms that by (rule liveUpdate_nth)
    then show ?thesis by (simp add: adjustPoint_def)
  qed
  with eq show ?thesis by blast
qed

theorem liveUpdate_frame_witness:
  "exHistory \<noteq> [] \<and>
   liveUpdate exHistory exFetched =
     Inr [mkPoint 2000 151 164 450100, mkPoint 3000 150 162 449900, exFetched] \<and>
   openInterest (mkPoint 2000 151 164 450100) = openInterest (exHistory ! 1) \<and>
   volume (mkPoint 2000 151 164 450100) = volume (exHistory ! 1) \<and>
   timestamp (mkPoint 3000 150 162 449900) = timestamp (exHistory ! 2) \<and>
   timeLabel (mkPoint 3000 150 162 449900) = timeLabel (exHistory ! 2)"
proof -
  have ne: "exHistory \<noteq> []"
    by (simp add: exHistory_def)
  from liveUpdate_frame [OF ne, of exFetched]
  obtain new where new: "liveUpdate exHistory exFetched = Inr new"
    and pts: "\<And>i. Suc i < length exHistory \<Longrightarrow>
      openInterest (new ! i) = openInterest (exHistory ! Suc i) \<and>
      volume (new ! i) = volume (exHistory ! Suc i) \<and>
      timestamp (new ! i) = timestamp (exHistory ! Suc i) \<and>
      timeLabel (new ! i) = timeLabel (exHistory ! Suc i)"
    by blast
  from new have eq: "new = [mkPoint 2000 151 164 450100, mkPoint 3000 150 162 449900, exFetched]"
    by (simp add: exHistory_liveUpdate)
  have len: "length exHistory = 3"
    by (simp add: exHistory_def)
  have p0: "openInterest (new ! 0) = openInterest (exHistory ! 1) \<and>
      volume (new ! 0) = volume (exHistory ! 1)"
    using pts [of 0] len by simp
  have p1: "timestamp (new ! 1) = timestamp (exHistory ! 2) \<and>
      timeLabel (new ! 1) = timeLabel (exHistory ! 2)"
    using pts [of 1] len by (simp add: numeral_2_eq_2)
  show ?thesis
    using ne exHistory_liveUpdate p0 p1 unfolding eq by simp
qed

section \<open>The history adjustment on doubles\<close>








section \<open>The simulation loop\<close>

lemma fetchLatestDataPoint_Inr:
  "prev \<noteq> [] \<Longrightarrow> \<exists>p. fetchLatestDataPoint prev e = Inr p"
  by (simp add: fetchLatestDataPoint_def Let_def)

lemma simulationUpdate_Inr:
  assumes "prev \<noteq> []"
  obtains p where "fetchLatestDataPoint prev e = Inr p"
    and "simulationUpdate prev e = Inr (drop 1 prev @ [p])"
  using fetchLatestDataPoint_Inr [OF assms, of e] by (auto simp: simulationUpdate_def)

lemma simulationRun_drop:
  "prev \<noteq> [] \<Longrightarrow>
   length (generatedPoints prev es) = length es \<and>
   simulationRun prev es = Inr (drop (length es) (prev @ generatedPoints prev es))"
proof (induction es arbitrary: prev)
  case Nil
  then show ?case by simp
next
  case (Cons e es)
  from Cons.prems obtain p where p: "fetchLatestDataPoint prev e = Inr p"
    and u: "simulationUpdate prev e = Inr (drop 1 prev @ [p])"
    by (rule simulationUpdate_Inr)
  let ?next = "drop 1 prev @ [p]"
  have "?next \<noteq> []" by simp
  from Cons.IH [OF this]
  have len: "length (generatedPoints ?next es) = length es"
    and run: "simulationRun ?next es = Inr (drop (length es) (?next @ generatedPoints ?next es))"
    by simp_all
  have "drop (Suc (length es)) (prev @ p # generatedPoints ?next es) =
        drop (length es) (?next @ generatedPoints ?next es)"
    using Cons.prems by (cases prev) simp_all
  with p u len run show ?case by simp
qed

text \<open>
  A run of appends on a non-empty series keeps its length; the series then holds the last
  points of the old series followed by the generated points.
\<close>

lemma simulationRun_window:
  assumes "prev \<noteq> []"
  shows "\<exists>new. simulationRun prev es = Inr new \<and>
           length new = length prev \<and>
           length (generatedPoints prev es) = length es \<and>
           new = drop (length es) (prev @ generatedPoints prev es) \<and>
           (length prev \<le> length es \<longrightarrow>
              new = drop (length es - length prev) (generatedPoints prev es))"
proof -
  let ?g = "generatedPoints prev es"
  from simulationRun_drop [OF assms, of es]
  have len: "length ?g = length es"
    and run: "simulationRun prev es = Inr (drop (length es) (prev @ ?g))"
    by simp_all
  have l: "length (drop (length es) (prev @ ?g)) = length prev"
    using len by simp
  have "drop (length es) (prev @ ?g) = drop (length es - length prev) ?g"
    if "length prev \<le> length es"
    using that by simp
  with run l len show ?thesis by blast
qed

section \<open>The generated history\<close>

lemma historyLoop_Suc:
  "historyLoop c ls env (Suc n) st = historyStep c ls env n (historyLoop c ls env n st)"
  by (simp add: historyLoop_def)

lemma historyLoop_0: "historyLoop c ls env 0 st = (st, [])"
  by (simp add: historyLoop_def)

lemma historyLoop_state:
  "lastSpot (fst (historyLoop c ls env n st)) = lastSpot st + (\<Sum>k<n. historyChange (env k)) \<and>
   lastOI (fst (historyLoop c ls env n st)) = lastOI st + (\<Sum>k<n. historyOiChange (env k))"
  by (induction n) (simp_all add: historyLoop_0 historyLoop_Suc historyStep_def Let_def)

lemma historyLoop_length: "length (snd (historyLoop c ls env n st)) = n"
  by (induction n) (simp_all add: historyLoop_0 historyLoop_Suc historyStep_def Let_def)

lemma historyLoop_snd_Suc:
  "snd (historyLoop c ls env (Suc n) st) =
     snd (historyLoop c ls env n st) @
     [\<lparr>timestamp = now (env n) - (int c - int n) * 900000,
       timeLabel = ls ! n,
       spotPrice = toFixed2 (lastSpot st + (\<Sum>k\<le>n. historyChange (env k))),
       futurePrice = toFixed2 (lastSpot st + (\<Sum>k\<le>n. historyChange (env k)) +
                        (12 + rnd_premium (env n) * 5)),
       openInterest = Math_floor (lastOI st + (\<Sum>k\<le>n. historyOiChange (env k))),
       volume = Math_floor (rnd_volume (env n) * 5000 + 1000)\<rparr>]"
  using historyLoop_state [of c ls env n st]
  by (simp add: historyLoop_Suc historyStep_def Let_def lessThan_Suc_atMost [symmetric]
      add.assoc)

lemma historyLoop_nth:
  "i < n \<Longrightarrow>
   snd (historyLoop c ls env n st) ! i =
     \<lparr>timestamp = now (env i) - (int c - int i) * 900000,
      timeLabel = ls ! i,
      spotPrice = toFixed2 (lastSpot st + (\<Sum>k\<le>i. historyChange (env k))),
      futurePrice = toFixed2 (lastSpot st + (\<Sum>k\<le>i. historyChange (env k)) +
                       (12 + rnd_premium (env i) * 5)),
      openInterest = Math_floor (lastOI st + (\<Sum>k\<le>i. historyOiChange (env k))),
      volume = Math_floor (rnd_volume (env i) * 5000 + 1000)\<rparr>"
proof (induction n)
  case 0
  then show ?case by simp
next
  case (Suc n)
  show ?case
  proof (cases "i < n")
    case True
    with Suc.IH show ?thesis
      by (simp add: historyLoop_snd_Suc nth_append historyLoop_length)
  next
    case False
    with Suc.prems have "i = n" by simp
    then show ?thesis
      by (simp add: historyLoop_snd_Suc nth_append historyLoop_length)
  qed
qed

lemma generateTimeLabels_length: "length (generateTimeLabels fmt t count) = count"
  by (simp add: generateTimeLabels_def)

lemma historyChange_bound:
  "valid_entropy e \<Longrightarrow> \<bar>historyChange e\<bar> \<le> 5 / 2"
  by (simp add: valid_entropy_def unit_draw_def historyChange_def abs_if)

lemma historyChange_sum_bound:
  assumes "\<forall>k\<le>i. valid_entropy (env k)"
  shows "\<bar>\<Sum>k\<le>i. historyChange (env k)\<bar> \<le> 5 / 2 * real (Suc i)"
proof -
  have "\<bar>\<Sum>k\<le>i. historyChange (env k)\<bar> \<le> (\<Sum>k\<le>i. \<bar>historyChange (env k)\<bar>)"
    by (rule sum_abs)
  also have "\<dots> \<le> (\<Sum>k\<le>i. 5 / 2)"
    using assms by (intro sum_mono historyChange_bound) simp
  also have "\<dots> = 5 / 2 * real (Suc i)"
    by simp
  finally show ?thesis .
qed

lemma valid_exEntropy: "valid_entropy exEntropy"
  by (simp add: valid_entropy_def unit_draw_def exEntropy_def)

text \<open>
  C7, as the code has it. Called on the initial module state with every draw in
  \<open>[0, 1)\<close>, \<open>generateHistoricalData(count)\<close> returns \<open>count\<close> points. Point \<open>i\<close> has the
  spot price 2350 plus the first \<open>i + 1\<close> changes, rounded; the open interest 450000 plus
  the first \<open>i + 1\<close> open-interest changes, floored; and as timestamp the clock reading of
  its iteration minus \<open>count - i\<close> quarters of an hour. So the timestamps increase strictly
  when the clock does not run backwards. When the clock reads the same \<open>t\<close> in every
  iteration, consecutive timestamps are exactly 15 minutes apart and the last one is
  \<open>t - 900000\<close>: the series ends 15 minutes before "now". For \<open>count = 5\<close> the final spot
  price lies in \<open>[2325, 2375]\<close>.
\<close>

theorem generateHistoricalData_bootstrap:
  assumes "\<forall>i<count. valid_entropy (env i)"
  shows "\<exists>st series. generateHistoricalData fmt t0 env count initial_sim_state = (st, series) \<and>
           length series = count \<and>
           (\<forall>i<count.
              spotPrice (series ! i) = toFixed2 (2350 + (\<Sum>k\<le>i. historyChange (env k))) \<and>
              openInterest (series ! i) =
                Math_floor (450000 + (\<Sum>k\<le>i. historyOiChange (env k))) \<and>
              timestamp (series ! i) = now (env i) - (int count - int i) * 900000) \<and>
           ((\<forall>i j. i \<le> j \<longrightarrow> j < count \<longrightarrow> now (env i) \<le> now (env j)) \<longrightarrow>
              (\<forall>i j. i < j \<longrightarrow> j < count \<longrightarrow> timestamp (series ! i) < timestamp (series ! j))) \<and>
           (\<forall>t. (\<forall>i<count. now (env i) = t) \<longrightarrow>
              (\<forall>i. Suc i < count \<longrightarrow>
                 timestamp (series ! Suc i) - timestamp (series ! i) = 900000) \<and>
              (0 < count \<longrightarrow> timestamp (last series) = t - 900000)) \<and>
           (count = 5 \<longrightarrow> 2325 \<le> spotPrice (last series) \<and> spotPrice (last series) \<le> 2375)"
proof -
  let ?ls = "generateTimeLabels fmt t0 count"
  let ?data = "snd (historyLoop count ?ls env count initial_sim_state)"
  let ?st = "fst (historyLoop count ?ls env count initial_sim_state)"
  have eq: "generateHistoricalData fmt t0 env count initial_sim_state = (?st, ?data)"
    by (simp add: generateHistoricalData_def)
  have len: "length ?data = count"
    by (rule historyLoop_length)
  have nth: "spotPrice (?data ! i) = toFixed2 (2350 + (\<Sum>k\<le>i. historyChange (env k))) \<and>
             openInterest (?data ! i) = Math_floor (450000 + (\<Sum>k\<le>i. historyOiChange (env k))) \<and>
             timestamp (?data ! i) = now (env i) - (int count - int i) * 900000"
    if "i < count" for i
    using historyLoop_nth [OF that, of count ?ls env initial_sim_state]
    by (simp add: initial_sim_state_def MOCK_START_PRICE_def MOCK_START_OI_def)
  have mono: "timestamp (?data ! i) < timestamp (?data ! j)"
    if clock: "\<forall>i j. i \<le> j \<longrightarrow> j < count \<longrightarrow> now (env i) \<le> now (env j)"
      and "i < j" "j < count" for i j
  proof -
    from \<open>i < j\<close> have "i \<le> j" by simp
    with clock \<open>j < count\<close> have c: "now (env i) \<le> now (env j)" by blast
    have ij: "int i < int j" using \<open>i < j\<close> by simp
    have ti: "timestamp (?data ! i) = now (env i) - (int count - int i) * 900000"
      using nth [of i] that by simp
    have tj: "timestamp (?data ! j) = now (env j) - (int count - int j) * 900000"
      using nth [of j] that by simp
    show ?thesis
      unfolding ti tj using c ij by (simp add: algebra_simps)
  qed
  have const: "(\<forall>i. Suc i < count \<longrightarrow> timestamp (?data ! Suc i) - timestamp (?data ! i) = 900000) \<and>
               (0 < count \<longrightarrow> timestamp (last ?data) = t - 900000)"
    if clock: "\<forall>i<count. now (env i) = t" for t
  proof (intro conjI allI impI)
    fix i assume "Suc i < count"
    then show "timestamp (?data ! Suc i) - timestamp (?data ! i) = 900000"
      using nth [of i] nth [of "Suc i"] clock by simp
  next
    assume "0 < count"
    then have "?data \<noteq> []"
      using len by auto
    then have "last ?data = ?data ! (length ?data - 1)"
      by (rule last_conv_nth)
    then have "last ?data = ?data ! (count - 1)"
      unfolding len .
    moreover have "int count - int (count - 1) = 1"
      using \<open>0 < count\<close> by simp
    ultimately show "timestamp (last ?data) = t - 900000"
      using nth [of "count - 1"] clock \<open>0 < count\<close> by simp
  qed
  have five: "2325 \<le> spotPrice (last ?data) \<and> spotPrice (last ?data) \<le> 2375"
    if "count = 5"
  proof -
    have "?data \<noteq> []"
      using len that by auto
    then have "last ?data = ?data ! (length ?data - 1)"
      by (rule last_conv_nth)
    also have "length ?data - 1 = 4"
      unfolding len using that by simp
    finally have "last ?data = ?data ! 4" .
    then have sp: "spotPrice (last ?data) = toFixed2 (2350 + (\<Sum>k\<le>4. historyChange (env k)))"
      using nth [of 4] that by simp
    have "\<forall>k\<le>4. valid_entropy (env k)"
      using assms that by simp
    from historyChange_sum_bound [OF this]
    have "\<bar>\<Sum>k\<le>4. historyChange (env k)\<bar> \<le> 25 / 2"
      by simp
    moreover have "\<bar>toFixed2 (2350 + (\<Sum>k\<le>4. historyChange (env k))) -
                    (2350 + (\<Sum>k\<le>4. historyChange (env k)))\<bar> \<le> 1 / 200"
      by (rule toFixed2_close)
    ultimately show ?thesis
      unfolding sp by linarith
  qed
  show ?thesis
    apply (rule exI [of _ ?st], rule exI [of _ ?data])
    apply (intro conjI)
    subgoal by (rule eq)
    subgoal by (rule len)
    subgoal using nth by blast
    subgoal using mono by blast
    subgoal using const by blast
    subgoal using five by blast
    done
qed

text \<open>The theorem at five points with the same draws and the same clock reading.\<close>

theorem generateHistoricalData_bootstrap_witness:
  "valid_entropy exEntropy \<and>
   length (snd (generateHistoricalData exFmt 1700000000000 exEnv 5 initial_sim_state)) = 5 \<and>
   2325 \<le> spotPrice (last (snd (generateHistoricalData exFmt 1700000000000 exEnv 5 initial_sim_state))) \<and>
   spotPrice (last (snd (generateHistoricalData exFmt 1700000000000 exEnv 5 initial_sim_state))) \<le> 2375 \<and>
   timestamp (last (snd (generateHistoricalData exFmt 1700000000000 exEnv 5 initial_sim_state)))
     = 1700000000000 - 900000 \<and>
   timestamp (snd (generateHistoricalData exFmt 1700000000000 exEnv 5 initial_sim_state) ! 0)
     < timestamp (snd (generateHistoricalData exFmt 1700000000000 exEnv 5 initial_sim_state) ! 1)"
proof -
  have v: "\<forall>i<5. valid_entropy (exEnv i)"
    by (simp add: exEnv_def valid_exEntropy)
  have clock: "\<forall>i<5. now (exEnv i) = 1700000000000"
    by (simp add: exEnv_def exEntropy_def)
  have mono: "\<forall>i j. i \<le> j \<longrightarrow> j < 5 \<longrightarrow> now (exEnv i) \<le> now (exEnv j)"
    by (simp add: exEnv_def)
  from generateHistoricalData_bootstrap [OF v, of exFmt 1700000000000]
  obtain st series
    where eq: "generateHistoricalData exFmt 1700000000000 exEnv 5 initial_sim_state = (st, series)"
    and len: "length series = 5"
    and inc: "(\<forall>i j. i \<le> j \<longrightarrow> j < 5 \<longrightarrow> now (exEnv i) \<le> now (exEnv j)) \<longrightarrow>
              (\<forall>i j. i < j \<longrightarrow> j < 5 \<longrightarrow> timestamp (series ! i) < timestamp (series ! j))"
    and const: "\<forall>t. (\<forall>i<5. now (exEnv i) = t) \<longrightarrow>
              (\<forall>i. Suc i < 5 \<longrightarrow> timestamp (series ! Suc i) - timestamp (series ! i) = 900000) \<and>
              (0 < (5::nat) \<longrightarrow> timestamp (last series) = t - 900000)"
    and five: "(5::nat) = 5 \<longrightarrow> 2325 \<le> spotPrice (last series) \<and> spotPrice (last series) \<le> 2375"
    by blast
  from const clock
  have "(\<forall>i. Suc i < 5 \<longrightarrow> timestamp (series ! Suc i) - timestamp (series ! i) = 900000) \<and>
        (0 < (5::nat) \<longrightarrow> timestamp (last series) = 1700000000000 - 900000)"
    by blast
  then have e: "timestamp (last series) = 1700000000000 - 900000"
    by simp
  from inc mono
  have "\<forall>i j. i < j \<longrightarrow> j < 5 \<longrightarrow> timestamp (series ! i) < timestamp (series ! j)"
    by blast
  then have "timestamp (series ! 0) < timestamp (series ! 1)"
    by simp
  with eq len five e valid_exEntropy show ?thesis
    by simp
qed

text \<open>
  C7 as stated has the timestamps end at "now". With every clock reading equal to
  1700000000000, the last of five points has the timestamp 1699999100000, a quarter of an
  hour earlier.
\<close>

theorem history_ends_before_now:
  "now (exEnv 4) = 1700000000000 \<and>
   timestamp (last (snd (generateHistoricalData exFmt 1700000000000 exEnv 5 initial_sim_state)))
     = 1699999100000"
  by code_simp

section \<open>Open interest and the price change\<close>

text \<open>
  In \<open>generateHistoricalData\<close> the open-interest change follows the price change: above
  1 it is shifted up by 500, below -1 down by 500, in between not at all.
\<close>

lemma historyOiChange_bias:
  assumes "valid_entropy e"
  shows "(historyChange e > 1 \<longrightarrow> 0 \<le> historyOiChange e \<and> historyOiChange e < 1000) \<and>
         (historyChange e < - 1 \<longrightarrow> - 1000 \<le> historyOiChange e \<and> historyOiChange e < 0) \<and>
         (- 1 \<le> historyChange e \<and> historyChange e \<le> 1 \<longrightarrow>
            - 500 \<le> historyOiChange e \<and> historyOiChange e < 500)"
  using assms by (simp add: valid_entropy_def unit_draw_def historyOiChange_def)

text \<open>In \<open>fetchLatestDataPoint\<close> the open-interest change does not read the price change.\<close>

lemma latestOiChange_ignores_change:
  "latestOiChange (e\<lparr>rnd_change := r\<rparr>) = latestOiChange e"
  by (simp add: latestOiChange_def)

text \<open>
  C8 at two ticks that differ only in the draw of the price change. The change is 1.2 in
  one and -1.2 in the other, and \<open>fetchLatestDataPoint\<close> gives the same open interest for
  both, where the rule of \<open>generateHistoricalData\<close> gives +500 and -500.
\<close>

theorem latest_oi_ignores_change:
  "latestChange exEntropy > 1 \<and> latestChange exDown < - 1 \<and>
   map_sum id openInterest (fetchLatestDataPoint exHistory exEntropy) = Inr 449900 \<and>
   map_sum id openInterest (fetchLatestDataPoint exHistory exDown) = Inr 449900 \<and>
   historyOiChange exEntropy = 500 \<and> historyOiChange exDown = - 500"
  by (simp add: exDown_def exEntropy_def exHistory_def mkPoint_def fetchLatestDataPoint_def
      latestChange_def latestOiChange_def historyOiChange_def historyChange_def
      Math_floor_def toFixed2_def Let_def)

section \<open>The analysis call\<close>

text \<open>
  With a key and a non-empty series \<open>analyzeMarketData\<close> returns a result, and whenever the
  remote reply is not a parsed analysis that result is the fallback with the basis of the
  latest point.
\<close>

lemma analyzeMarketData_fallback:
  assumes "getAI key envKey = Inr k" and "series \<noteq> []"
  shows "\<exists>a. analyzeMarketData series srcs key envKey userPrompt reply = Inr a \<and>
           ((\<forall>r. reply \<noteq> AnalyzeParsed r) \<longrightarrow>
              a = fallbackAnalysis (futurePrice (last series) - spotPrice (last series)))"
  using assms
  by (cases reply) (simp_all add: analyzeMarketData_def analyzePrefix_def analyzeSettle_def Let_def)

text \<open>
  C5 at a missing credential: with the empty key of the initial state and no
  \<open>process.env.API_KEY\<close>, \<open>getAI\<close> throws before the \<open>try\<close> of \<open>analyzeMarketData\<close>, and the
  error reaches the caller instead of the fallback result. The same holds for the
  \<open>TypeError\<close> on an empty series.
\<close>

theorem analyzeMarketData_throws_without_key:
  "getAI (Some []) None = Inl ApiKeyMissing \<and>
   analyzeMarketData exHistory [] (Some []) None None AnalyzeRejected = Inl ApiKeyMissing \<and>
   analyzeMarketData [] [] (Some ''key'') None None AnalyzeRejected = Inl TypeError"
  by (simp add: analyzeMarketData_def analyzePrefix_def getAI_def exHistory_def)

section \<open>Suspended calls\<close>

lemma find_call_fresh_append:
  "list_all (\<lambda>c. call_id c < n) xs \<Longrightarrow> find_call n (xs @ ys) = find_call n ys"
  unfolding find_call_def by (induction xs) simp_all

lemma drop_call_fresh:
  "list_all (\<lambda>c. call_id c < n) xs \<Longrightarrow> drop_call n xs = xs"
  unfolding drop_call_def by (induction xs) simp_all

lemma find_call_drop_other:
  "c1 \<noteq> c2 \<Longrightarrow> find_call c2 (drop_call c1 xs) = find_call c2 xs"
  unfolding find_call_def drop_call_def by (induction xs) auto

lemma find_call_append_other:
  "call_id y \<noteq> c2 \<Longrightarrow> find_call c2 (xs @ [y]) = find_call c2 xs"
  unfolding find_call_def by (induction xs) auto

lemma find_call_Some:
  "find_call cid xs = Some c \<Longrightarrow> c \<in> set xs \<and> call_id c = cid"
  unfolding find_call_def by (induction xs) (auto split: if_splits)

lemma fetchLiveValues_started:
  assumes "getAI (Some (apiKey s)) (env_API_KEY s) = Inr k"
  shows "fetchLiveValues s =
           s\<lparr>isDataLoading := True, analysisStatus := LOADING,
             statusLog := statusLog s @ [LOADING],
             pending := pending s @ [AwaitFetch (nextCall s) (apiKey s) (userQuestion s)],
             nextCall := Suc (nextCall s)\<rparr>"
  using assms by (simp add: fetchLiveValues_def setAnalysisStatus_def Let_def)

lemma fetchResolved_applies:
  assumes pend: "find_call cid (pending s) = Some (AwaitFetch cid key q)"
    and ok: "fetchSettle reply t lbl = Inr res"
    and ne: "data s \<noteq> []"
  shows "data (fetchResolved cid reply t lbl s) =
           drop 1 (map (adjustPoint (spotPrice (dataPoint res) - spotPrice (last (data s)))) (data s))
           @ [dataPoint res]"
    and "c \<noteq> cid \<Longrightarrow>
         find_call c (pending (fetchResolved cid reply t lbl s)) = find_call c (pending s)"
    and "dataMode (fetchResolved cid reply t lbl s) = dataMode s"
proof -
  let ?new = "drop 1 (map (adjustPoint (spotPrice (dataPoint res) - spotPrice (last (data s)))) (data s))
           @ [dataPoint res]"
  have lu: "liveUpdate (data s) (dataPoint res) = Inr ?new"
    using ne by (rule liveUpdate_Inr)
  show "data (fetchResolved cid reply t lbl s) = ?new"
    using pend ok lu
    by (simp add: fetchResolved_def Let_def fetchLiveValues_failed_def setAnalysisStatus_def
        split: sum.splits)
  show "find_call c (pending (fetchResolved cid reply t lbl s)) = find_call c (pending s)"
    if "c \<noteq> cid"
    using pend ok lu that
    by (simp add: fetchResolved_def Let_def fetchLiveValues_failed_def setAnalysisStatus_def
        find_call_drop_other find_call_append_other split: sum.splits)
  show "dataMode (fetchResolved cid reply t lbl s) = dataMode s"
    using pend ok lu
    by (simp add: fetchResolved_def Let_def fetchLiveValues_failed_def setAnalysisStatus_def
        split: sum.splits)
qed

text \<open>Both invariants hold in the initial state and after every event.\<close>

lemma fresh_calls_initialApp: "fresh_calls (initialApp series opts envKey)"
  by (simp add: fresh_calls_def initialApp_def)

lemma fresh_calls_fetchLiveValues: "fresh_calls s \<Longrightarrow> fresh_calls (fetchLiveValues s)"
  by (auto simp: fresh_calls_def fetchLiveValues_def fetchLiveValues_failed_def
      setAnalysisStatus_def Let_def list_all_iff split: sum.splits)

lemma fresh_calls_step: "fresh_calls s \<Longrightarrow> fresh_calls (step ev s)"
proof (cases ev)
  case (FetchResolved cid reply t lbl)
  assume fr: "fresh_calls s"
  show ?thesis
  proof (cases "find_call cid (pending s)")
    case None
    with fr FetchResolved show ?thesis by (simp add: fetchResolved_def)
  next
    case (Some c)
    then have "c \<in> set (pending s)" "call_id c = cid"
      using find_call_Some by blast+
    with fr have "cid < nextCall s"
      by (auto simp: fresh_calls_def list_all_iff)
    with fr Some FetchResolved show ?thesis
      by (cases c)
        (auto simp: fresh_calls_def fetchResolved_def fetchLiveValues_failed_def drop_call_def
          setAnalysisStatus_def Let_def list_all_iff split: sum.splits)
  qed
next
  case (AnalyzeResolved cid reply)
  assume fr: "fresh_calls s"
  with AnalyzeResolved show ?thesis
    by (auto simp: fresh_calls_def analyzeResolved_def setAnalysisStatus_def Let_def list_all_iff
        drop_call_def split: option.splits call.splits)
next
  case RefreshClick
  assume fr: "fresh_calls s"
  show ?thesis
  proof (cases "dataMode s = LIVE_SEARCH")
    case True
    with fr RefreshClick fresh_calls_fetchLiveValues [OF fr] show ?thesis
      by (simp add: refreshButton_def handleManualRefresh_def)
  next
    case False
    with fr RefreshClick show ?thesis
      by (auto simp: fresh_calls_def refreshButton_def handleManualRefresh_def
          setAnalysisStatus_def Let_def list_all_iff split: sum.splits)
  qed
next
  case ToggleModeClick
  assume fr: "fresh_calls s"
  let ?s1 = "(setAnalysisStatus IDLE
                  (s\<lparr>dataMode := (if dataMode s = SIMULATION then LIVE_SEARCH else SIMULATION),
                     analysis := None\<rparr>))
                 \<lparr>isAutoUpdate := False, nextUpdateCountdown := 60\<rparr>"
  have "fresh_calls ?s1"
    using fr by (simp add: fresh_calls_def setAnalysisStatus_def)
  then show ?thesis
    using ToggleModeClick fresh_calls_fetchLiveValues [of ?s1]
    by (simp add: toggleMode_def Let_def)
qed (auto simp: fresh_calls_def autoTick_def countdownTick_def simulationTick_def
      toggleAutoUpdate_def fetchLiveValues_def fetchLiveValues_failed_def setAnalysisStatus_def
      Let_def list_all_iff split: sum.splits option.splits)

lemma fresh_calls_run: "fresh_calls s \<Longrightarrow> fresh_calls (run evs s)"
  unfolding run_def by (induction evs arbitrary: s) (simp_all add: fresh_calls_step)

lemma data_nonempty_step: "data s \<noteq> [] \<Longrightarrow> data (step ev s) \<noteq> []"
proof (cases ev)
  case (FetchResolved cid reply t lbl)
  assume "data s \<noteq> []"
  with FetchResolved show ?thesis
    by (auto simp: fetchResolved_def fetchLiveValues_failed_def setAnalysisStatus_def Let_def
        liveUpdate_def split: option.splits call.splits sum.splits)
next
  case (SimulationTick e opts)
  assume "data s \<noteq> []"
  with SimulationTick show ?thesis
    by (auto simp: simulationTick_def simulationUpdate_def split: sum.splits)
qed (auto simp: autoTick_def countdownTick_def refreshButton_def handleManualRefresh_def
      toggleMode_def toggleAutoUpdate_def analyzeResolved_def fetchLiveValues_def
      fetchLiveValues_failed_def setAnalysisStatus_def Let_def
      split: sum.splits option.splits call.splits)

section \<open>Example states\<close>

lemma exLive_key: "getAI (Some (apiKey exLive)) (env_API_KEY exLive) = Inr ''key''"
  by (simp add: getAI_def exLive_def initialApp_def)

lemma exOne_eq:
  "exOne = exLive\<lparr>isDataLoading := True, analysisStatus := LOADING, statusLog := [LOADING],
            pending := [AwaitFetch 0 ''key'' []], nextCall := 1\<rparr>"
  by (simp add: exOne_def run_def autoTick_def fetchLiveValues_def setAnalysisStatus_def
      getAI_def exLive_def initialApp_def Let_def)

lemma exBusy_eq:
  "exBusy = exLive\<lparr>isDataLoading := True, analysisStatus := LOADING,
            statusLog := [LOADING, LOADING],
            pending := [AwaitFetch 0 ''key'' [], AwaitFetch 1 ''key'' []], nextCall := 2\<rparr>"
  by (simp add: exBusy_def run_def autoTick_def fetchLiveValues_def setAnalysisStatus_def
      getAI_def exLive_def initialApp_def Let_def)

lemma exReply_settle:
  "fetchSettle (exReply q) t lbl =
     (if q = 0 then Inl NoValidPriceData
      else Inr \<lparr>dataPoint = \<lparr>timestamp = t, timeLabel = lbl, spotPrice = q, futurePrice = q + 13,
                   openInterest = 470000, volume = 1000\<rparr>,
                optionSeries = [], sources = []\<rparr>)"
  by (simp add: fetchSettle_def exReply_def Let_def)

lemma exMount_eq:
  "exMount =
     (initialApp (snd (generateHistoricalData exFmt 1700000000000 exEnv 50 initial_sim_state)) [] None)
       \<lparr>analysisStatus := ERROR, statusLog := [LOADING, ERROR]\<rparr>"
  by (simp add: exMount_def mountApp_def initialApp_def fetchLiveValues_def
      fetchLiveValues_failed_def setAnalysisStatus_def getAI_def Let_def)

lemma exSim_mode: "dataMode exSim = SIMULATION"
  by (simp add: exSim_def run_def exMount_eq initialApp_def toggleMode_def setAnalysisStatus_def
      Let_def)

lemma exReady_eq:
  "exReady = exMount\<lparr>apiKey := ''key'', isAutoUpdate := True\<rparr>"
  by (simp add: exReady_def run_def exMount_eq initialApp_def toggleAutoUpdate_def)

section \<open>The series at capacity\<close>

lemma length_data_step: "length (data (step ev s)) = length (data s)"
proof (cases ev)
  case (FetchResolved cid reply t lbl)
  show ?thesis
  proof (cases "data s = []")
    case True
    with FetchResolved show ?thesis
      by (auto simp: fetchResolved_def fetchLiveValues_failed_def setAnalysisStatus_def Let_def
          liveUpdate_def split: option.splits call.splits sum.splits)
  next
    case False
    then have "length (drop 1 (data s)) = length (data s) - 1" by simp
    with False FetchResolved show ?thesis
      by (cases "data s")
        (auto simp: fetchResolved_def fetchLiveValues_failed_def setAnalysisStatus_def Let_def
          liveUpdate_def split: option.splits call.splits sum.splits)
  qed
next
  case (SimulationTick e opts)
  then show ?thesis
    by (cases "data s")
      (auto simp: simulationTick_def simulationUpdate_def fetchLatestDataPoint_def Let_def
        split: sum.splits)
qed (auto simp: autoTick_def countdownTick_def refreshButton_def handleManualRefresh_def
      toggleMode_def toggleAutoUpdate_def analyzeResolved_def fetchLiveValues_def
      fetchLiveValues_failed_def setAnalysisStatus_def Let_def
      split: sum.splits option.splits call.splits)

lemma length_data_run: "length (data (run evs s)) = length (data s)"
  unfolding run_def by (induction evs arbitrary: s) (simp_all add: length_data_step)

lemma length_data_mountApp: "length (data (mountApp fmt t0 env opts envKey)) = 50"
proof -
  have "data (fetchLiveValues s) = data s" for s
    by (simp add: fetchLiveValues_def fetchLiveValues_failed_def setAnalysisStatus_def Let_def
        split: sum.splits)
  then show ?thesis
    by (simp add: mountApp_def initialApp_def generateHistoricalData_def historyLoop_length)
qed

lemma simulationTick_append:
  assumes "dataMode s = SIMULATION" and "data s \<noteq> []"
  shows "\<exists>p. fetchLatestDataPoint (data s) e = Inr p \<and>
           data (step (SimulationTick e opts) s) = drop 1 (data s) @ [p] \<and>
           dataMode (step (SimulationTick e opts) s) = SIMULATION \<and>
           simulationUpdate (data s) e = Inr (data (step (SimulationTick e opts) s))"
proof -
  from assms(2) obtain p where p: "fetchLatestDataPoint (data s) e = Inr p"
    and u: "simulationUpdate (data s) e = Inr (drop 1 (data s) @ [p])"
    by (rule simulationUpdate_Inr)
  with assms show ?thesis
    by (simp add: simulationTick_def)
qed

lemma simulationTicks_run:
  "dataMode s = SIMULATION \<Longrightarrow> data s \<noteq> [] \<Longrightarrow>
   simulationRun (data s) (map fst ticks) = Inr new \<Longrightarrow>
   data (run (simulationTicks ticks) s) = new"
proof (induction ticks arbitrary: s)
  case Nil
  then show ?case by (simp add: run_def simulationTicks_def)
next
  case (Cons tk ticks)
  obtain e opts where tk: "tk = (e, opts)" by (cases tk)
  from simulationTick_append [OF Cons.prems(1,2), of e opts]
  obtain p where m: "dataMode (step (SimulationTick e opts) s) = SIMULATION"
    and d: "data (step (SimulationTick e opts) s) = drop 1 (data s) @ [p]"
    and u: "simulationUpdate (data s) e = Inr (data (step (SimulationTick e opts) s))"
    by blast
  have ne: "data (step (SimulationTick e opts) s) \<noteq> []"
    unfolding d by simp
  from Cons.prems(3) u tk
  have r: "simulationRun (data (step (SimulationTick e opts) s)) (map fst ticks) = Inr new"
    by simp
  from Cons.IH [OF m ne r] tk show ?case
    by (simp add: run_def simulationTicks_def)
qed

text \<open>
  C4. In every state the component reaches from its mount the series has 50 points, so
  it is at capacity at every append: a tick of the simulation loop evicts the oldest
  point and appends the new one, and the series has 50 points again. Consequently, after
  any sequence of ticks the series has 50 points, the last ones of the old series
  followed by the generated points in their order of arrival, and from 50 ticks on it
  holds exactly the last 50 generated points in their order of arrival. A series below
  capacity does not occur.
\<close>

theorem series_window_at_capacity:
  assumes "s = run evs (mountApp fmt t0 env opts envKey)" and "dataMode s = SIMULATION"
  shows "length (data s) = 50 \<and>
         (\<exists>p. fetchLatestDataPoint (data s) e = Inr p \<and>
              data (step (SimulationTick e os) s) = drop 1 (data s) @ [p] \<and>
              length (data (step (SimulationTick e os) s)) = 50) \<and>
         (\<exists>new. data (run (simulationTicks ticks) s) = new \<and>
              simulationRun (data s) (map fst ticks) = Inr new \<and>
              length new = 50 \<and>
              length (generatedPoints (data s) (map fst ticks)) = length ticks \<and>
              new = drop (length ticks) (data s @ generatedPoints (data s) (map fst ticks)) \<and>
              (50 \<le> length ticks \<longrightarrow>
                 new = drop (length ticks - 50) (generatedPoints (data s) (map fst ticks))))"
proof -
  have len: "length (data s) = 50"
    unfolding assms(1) by (simp add: length_data_run length_data_mountApp)
  then have ne: "data s \<noteq> []"
    by auto
  from simulationTick_append [OF assms(2) ne, of e os]
  obtain p where p: "fetchLatestDataPoint (data s) e = Inr p"
    and d: "data (step (SimulationTick e os) s) = drop 1 (data s) @ [p]"
    by blast
  have one: "\<exists>p. fetchLatestDataPoint (data s) e = Inr p \<and>
              data (step (SimulationTick e os) s) = drop 1 (data s) @ [p] \<and>
              length (data (step (SimulationTick e os) s)) = 50"
    using p d len by (simp add: length_data_step)
  from simulationRun_window [OF ne, of "map fst ticks"]
  obtain new where run: "simulationRun (data s) (map fst ticks) = Inr new"
    and l: "length new = length (data s)"
    and g: "length (generatedPoints (data s) (map fst ticks)) = length (map fst ticks)"
    and w: "new = drop (length (map fst ticks)) (data s @ generatedPoints (data s) (map fst ticks))"
    and f: "length (data s) \<le> length (map fst ticks) \<longrightarrow>
              new = drop (length (map fst ticks) - length (data s))
                      (generatedPoints (data s) (map fst ticks))"
    by blast
  have ev: "data (run (simulationTicks ticks) s) = new"
    using assms(2) ne run by (rule simulationTicks_run)
  have many: "\<exists>new. data (run (simulationTicks ticks) s) = new \<and>
              simulationRun (data s) (map fst ticks) = Inr new \<and>
              length new = 50 \<and>
              length (generatedPoints (data s) (map fst ticks)) = length ticks \<and>
              new = drop (length ticks) (data s @ generatedPoints (data s) (map fst ticks)) \<and>
              (50 \<le> length ticks \<longrightarrow>
                 new = drop (length ticks - 50) (generatedPoints (data s) (map fst ticks)))"
    apply (rule exI [of _ new])
    using ev run l g w f len by simp
  from len one many show ?thesis
    by (intro conjI)
qed

text \<open>
  The theorem in the state after the mount and a switch to simulation mode, at one tick
  and at 50 ticks: the series then holds the 50 generated points.
\<close>

theorem series_window_at_capacity_witness:
  "exSim = run [ToggleModeClick] (mountApp exFmt 1700000000000 exEnv [] None) \<and>
   dataMode exSim = SIMULATION \<and>
   length (data exSim) = 50 \<and>
   length (data (step (SimulationTick exEntropy None) exSim)) = 50 \<and>
   length exTicks50 = 50 \<and>
   data (run (simulationTicks exTicks50) exSim) =
     generatedPoints (data exSim) (map fst exTicks50) \<and>
   length (generatedPoints (data exSim) (map fst exTicks50)) = 50"
proof -
  have r: "exSim = run [ToggleModeClick] (mountApp exFmt 1700000000000 exEnv [] None)"
    by (simp add: exSim_def exMount_def)
  have n: "length exTicks50 = 50"
    by (simp add: exTicks50_def)
  from series_window_at_capacity [OF r exSim_mode, of exEntropy None exTicks50]
  obtain new where len: "length (data exSim) = 50"
    and one: "length (data (step (SimulationTick exEntropy None) exSim)) = 50"
    and ev: "data (run (simulationTicks exTicks50) exSim) = new"
    and g: "length (generatedPoints (data exSim) (map fst exTicks50)) = length exTicks50"
    and f: "50 \<le> length exTicks50 \<longrightarrow>
              new = drop (length exTicks50 - 50) (generatedPoints (data exSim) (map fst exTicks50))"
    by blast
  from f n have "new = generatedPoints (data exSim) (map fst exTicks50)"
    by simp
  with r exSim_mode len one n ev g show ?thesis
    by simp
qed

section \<open>A failed fetch\<close>

lemma fetchLiveValues_frame:
  "data (fetchLiveValues s) = data s"
  "optionData (fetchLiveValues s) = optionData s"
  "analysis (fetchLiveValues s) = analysis s"
  "isAutoUpdate (fetchLiveValues s) = isAutoUpdate s"
  "dataMode (fetchLiveValues s) = dataMode s"
  by (simp_all add: fetchLiveValues_def fetchLiveValues_failed_def setAnalysisStatus_def Let_def
      split: sum.splits)

lemma failed_fetchLiveValues:
  assumes "fresh_calls s"
    and "fetchRealTimeMarketData (Some (apiKey s)) (env_API_KEY s) reply t lbl = Inl err"
  shows "failed_cycle s (fetchResolved (nextCall s) reply t lbl (fetchLiveValues s))"
proof (cases "getAI (Some (apiKey s)) (env_API_KEY s)")
  case (Inl e)
  have fr: "list_all (\<lambda>c. call_id c < nextCall s) (pending s)"
    using assms(1) by (simp add: fresh_calls_def)
  have s1: "fetchLiveValues s =
      s\<lparr>isDataLoading := False, analysisStatus := ERROR, statusLog := statusLog s @ [LOADING, ERROR]\<rparr>"
    using Inl by (simp add: fetchLiveValues_def fetchLiveValues_failed_def setAnalysisStatus_def Let_def)
  have "find_call (nextCall s) (pending s @ []) = find_call (nextCall s) []"
    using fr by (rule find_call_fresh_append)
  then have "find_call (nextCall s) (pending s) = None"
    by (simp add: find_call_def)
  then have "fetchResolved (nextCall s) reply t lbl (fetchLiveValues s) = fetchLiveValues s"
    by (simp add: s1 fetchResolved_def)
  then show ?thesis
    by (simp add: s1 failed_cycle_def)
next
  case (Inr k)
  have fr: "list_all (\<lambda>c. call_id c < nextCall s) (pending s)"
    using assms(1) by (simp add: fresh_calls_def)
  from assms(2) Inr have bad: "fetchSettle reply t lbl = Inl err"
    by (simp add: fetchRealTimeMarketData_def)
  have f: "find_call (nextCall s)
             (pending s @ [AwaitFetch (nextCall s) (apiKey s) (userQuestion s)]) =
           Some (AwaitFetch (nextCall s) (apiKey s) (userQuestion s))"
    using find_call_fresh_append [OF fr] by (simp add: find_call_def)
  have g: "drop_call (nextCall s) (pending s) = pending s"
    using fr by (rule drop_call_fresh)
  have g': "drop_call (nextCall s)
              (pending s @ [AwaitFetch (nextCall s) (apiKey s) (userQuestion s)]) = pending s"
    using g by (simp add: drop_call_def)
  show ?thesis
    using f g' bad
    by (simp add: fetchLiveValues_started [OF Inr] fetchResolved_def fetchLiveValues_failed_def
        setAnalysisStatus_def failed_cycle_def Let_def)
qed

lemma fetchLiveValues_writes_LOADING:
  "take (Suc (length (statusLog s))) (statusLog (fetchLiveValues s)) = statusLog s @ [LOADING]"
  by (simp add: fetchLiveValues_def fetchLiveValues_failed_def setAnalysisStatus_def Let_def
      split: sum.splits)

text \<open>
  C6. A live refresh cycle whose fetch fails, for want of a key, by a rejected remote
  call, by a reply that makes the function throw or by a reply without price data: the
  cycle writes \<open>LOADING\<close> and then \<open>ERROR\<close> to the status, and the stored series is the one
  before the cycle, both while the fetch is in flight and after it failed; no call of the
  cycle stays suspended, the loading flag is off, and the options, the analysis,
  auto-update and the mode are as before. This holds from every status, for a cycle
  started by the effect of the mode, by a tick of auto-update and by a click on the
  refresh button. The failure does not stop the interval: its next tick starts a cycle
  again, which writes \<open>LOADING\<close>.
\<close>

theorem failed_fetch_cycle:
  assumes "fresh_calls s"
    and "fetchRealTimeMarketData (Some (apiKey s)) (env_API_KEY s) reply t lbl = Inl err"
  shows "failed_cycle s (run [FetchResolved (nextCall s) reply t lbl] (fetchLiveValues s)) \<and>
         data (fetchLiveValues s) = data s \<and>
         (dataMode s = LIVE_SEARCH \<and> isAutoUpdate s \<longrightarrow>
            data (run [AutoTick] s) = data s \<and>
            failed_cycle s (run [AutoTick, FetchResolved (nextCall s) reply t lbl] s) \<and>
            take (length (statusLog s) + 3)
              (statusLog (run [AutoTick, FetchResolved (nextCall s) reply t lbl, AutoTick] s)) =
              statusLog s @ [LOADING, ERROR, LOADING]) \<and>
         (dataMode s = LIVE_SEARCH \<and> analysisStatus s \<noteq> LOADING \<longrightarrow>
            data (run [RefreshClick] s) = data s \<and>
            failed_cycle s (run [RefreshClick, FetchResolved (nextCall s) reply t lbl] s))"
proof (intro conjI impI)
  let ?s2 = "fetchResolved (nextCall s) reply t lbl (fetchLiveValues s)"
  have fc: "failed_cycle s ?s2"
    using assms by (rule failed_fetchLiveValues)
  show "failed_cycle s (run [FetchResolved (nextCall s) reply t lbl] (fetchLiveValues s))"
    using fc by (simp add: run_def)
  show "data (fetchLiveValues s) = data s"
    by (rule fetchLiveValues_frame)
  {
    assume a: "dataMode s = LIVE_SEARCH \<and> isAutoUpdate s"
    then have t: "autoTick s = fetchLiveValues s"
      by (simp add: autoTick_def)
    show "data (run [AutoTick] s) = data s"
      by (simp add: run_def t fetchLiveValues_frame)
    show "failed_cycle s (run [AutoTick, FetchResolved (nextCall s) reply t lbl] s)"
      using fc by (simp add: run_def t)
    from fc a have "dataMode ?s2 = LIVE_SEARCH \<and> isAutoUpdate ?s2"
      and l: "statusLog ?s2 = statusLog s @ [LOADING, ERROR]"
      by (simp_all add: failed_cycle_def)
    then have t2: "autoTick ?s2 = fetchLiveValues ?s2"
      by (simp add: autoTick_def)
    have e: "length (statusLog s) + 3 = Suc (length (statusLog ?s2))"
      by (simp add: l)
    have "take (Suc (length (statusLog ?s2))) (statusLog (fetchLiveValues ?s2)) =
            statusLog ?s2 @ [LOADING]"
      by (rule fetchLiveValues_writes_LOADING)
    then show "take (length (statusLog s) + 3)
              (statusLog (run [AutoTick, FetchResolved (nextCall s) reply t lbl, AutoTick] s)) =
              statusLog s @ [LOADING, ERROR, LOADING]"
      unfolding e by (simp add: run_def t t2 l)
  }
  {
    assume a: "dataMode s = LIVE_SEARCH \<and> analysisStatus s \<noteq> LOADING"
    then have t: "refreshButton s = fetchLiveValues s"
      by (simp add: refreshButton_def handleManualRefresh_def)
    show "data (run [RefreshClick] s) = data s"
      by (simp add: run_def t fetchLiveValues_frame)
    show "failed_cycle s (run [RefreshClick, FetchResolved (nextCall s) reply t lbl] s)"
      using fc by (simp add: run_def t)
  }
qed

text \<open>
  The theorem at the first cycle, which starts in status \<open>IDLE\<close> and fails for want of a
  key, and at a tick of auto-update and a click on the refresh button after a key was
  typed, whose remote call is rejected; the tick after the failed one writes \<open>LOADING\<close>
  again.
\<close>

theorem failed_fetch_cycle_witness:
  "fresh_calls exInit \<and> analysisStatus exInit = IDLE \<and>
   fetchRealTimeMarketData (Some (apiKey exInit)) (env_API_KEY exInit) FetchRejected 6000 ''10:32''
     = Inl ApiKeyMissing \<and>
   exMount = fetchLiveValues exInit \<and>
   statusLog exInit = [] \<and> statusLog exMount = [LOADING, ERROR] \<and> data exMount = data exInit \<and>
   fresh_calls exReady \<and> dataMode exReady = LIVE_SEARCH \<and> isAutoUpdate exReady \<and>
   analysisStatus exReady = ERROR \<and> statusLog exReady = [LOADING, ERROR] \<and>
   fetchRealTimeMarketData (Some (apiKey exReady)) (env_API_KEY exReady) FetchRejected 6000 ''10:32''
     = Inl RemoteFailure \<and>
   statusLog (run [AutoTick, FetchResolved 0 FetchRejected 6000 ''10:32''] exReady) =
     [LOADING, ERROR, LOADING, ERROR] \<and>
   analysisStatus (run [AutoTick, FetchResolved 0 FetchRejected 6000 ''10:32''] exReady) = ERROR \<and>
   data (run [AutoTick, FetchResolved 0 FetchRejected 6000 ''10:32''] exReady) = data exReady \<and>
   isAutoUpdate (run [AutoTick, FetchResolved 0 FetchRejected 6000 ''10:32''] exReady) \<and>
   take 5 (statusLog (run [AutoTick, FetchResolved 0 FetchRejected 6000 ''10:32'', AutoTick] exReady))
     = [LOADING, ERROR, LOADING, ERROR, LOADING] \<and>
   statusLog (run [RefreshClick, FetchResolved 0 FetchRejected 6000 ''10:32''] exReady) =
     [LOADING, ERROR, LOADING, ERROR] \<and>
   data (run [RefreshClick, FetchResolved 0 FetchRejected 6000 ''10:32''] exReady) = data exReady"
proof -
  have fr0: "fresh_calls exInit" and st0: "analysisStatus exInit = IDLE"
    and lg0: "statusLog exInit = []" and n0: "nextCall exInit = 0"
    by (simp_all add: exInit_def initialApp_def fresh_calls_def)
  have bad0: "fetchRealTimeMarketData (Some (apiKey exInit)) (env_API_KEY exInit) FetchRejected
      6000 ''10:32'' = Inl ApiKeyMissing"
    by (simp add: fetchRealTimeMarketData_def getAI_def exInit_def initialApp_def)
  have mt: "exMount = fetchLiveValues exInit"
    by (simp add: exMount_def mountApp_def exInit_def)
  have same: "run [FetchResolved 0 FetchRejected 6000 ''10:32''] (fetchLiveValues exInit) = exMount"
    by (simp add: run_def fetchResolved_def find_call_def exMount_eq exInit_def initialApp_def
        fetchLiveValues_def fetchLiveValues_failed_def setAnalysisStatus_def getAI_def Let_def)
  from failed_fetch_cycle [OF fr0 bad0]
  have "failed_cycle exInit (run [FetchResolved 0 FetchRejected 6000 ''10:32''] (fetchLiveValues exInit))"
    by (simp add: n0)
  then have fc0: "failed_cycle exInit exMount"
    unfolding same .
  from fc0 have lgm: "statusLog exMount = [LOADING, ERROR]" and dm: "data exMount = data exInit"
    by (simp_all add: failed_cycle_def lg0)
  have fr: "fresh_calls exReady" and m: "dataMode exReady = LIVE_SEARCH"
    and a: "isAutoUpdate exReady" and st: "analysisStatus exReady = ERROR"
    and lg: "statusLog exReady = [LOADING, ERROR]" and n: "nextCall exReady = 0"
    by (simp_all add: exReady_eq exMount_eq initialApp_def fresh_calls_def)
  have bad: "fetchRealTimeMarketData (Some (apiKey exReady)) (env_API_KEY exReady) FetchRejected
      6000 ''10:32'' = Inl RemoteFailure"
    by (simp add: fetchRealTimeMarketData_def fetchSettle_def getAI_def exReady_eq exMount_eq
        initialApp_def)
  from failed_fetch_cycle [OF fr bad] m st
  have "failed_cycle exReady (run [RefreshClick, FetchResolved 0 FetchRejected 6000 ''10:32''] exReady)"
    by (simp add: n)
  then have rc: "statusLog (run [RefreshClick, FetchResolved 0 FetchRejected 6000 ''10:32''] exReady) =
     [LOADING, ERROR, LOADING, ERROR]"
    "data (run [RefreshClick, FetchResolved 0 FetchRejected 6000 ''10:32''] exReady) = data exReady"
    by (simp_all add: failed_cycle_def lg)
  from failed_fetch_cycle [OF fr bad] m a
  have fc: "failed_cycle exReady (run [AutoTick, FetchResolved 0 FetchRejected 6000 ''10:32''] exReady)"
    and nx: "take (length (statusLog exReady) + 3)
              (statusLog (run [AutoTick, FetchResolved 0 FetchRejected 6000 ''10:32'', AutoTick] exReady)) =
              statusLog exReady @ [LOADING, ERROR, LOADING]"
    by (simp_all add: n)
  from fc have c: "statusLog (run [AutoTick, FetchResolved 0 FetchRejected 6000 ''10:32''] exReady) =
     [LOADING, ERROR, LOADING, ERROR]"
    "analysisStatus (run [AutoTick, FetchResolved 0 FetchRejected 6000 ''10:32''] exReady) = ERROR"
    "data (run [AutoTick, FetchResolved 0 FetchRejected 6000 ''10:32''] exReady) = data exReady"
    "isAutoUpdate (run [AutoTick, FetchResolved 0 FetchRejected 6000 ''10:32''] exReady)"
    by (simp_all add: failed_cycle_def lg a)
  from nx have t5: "take 5 (statusLog (run [AutoTick, FetchResolved 0 FetchRejected 6000 ''10:32'', AutoTick] exReady))
     = [LOADING, ERROR, LOADING, ERROR, LOADING]"
    by (simp add: lg)
  from fr0 st0 bad0 mt lg0 lgm dm fr m a st lg bad c t5 rc show ?thesis
    by (intro conjI)
qed

section \<open>Overlapping ticks\<close>

text \<open>
  C2, as the code has it. In live mode with auto-update on and a key present, every tick
  starts a new cycle at once, whatever is still suspended: the tick is neither skipped
  nor queued, and the series is not touched by the start. The fetches of two suspended
  cycles are applied to the series in the order in which they settle, each on the series
  the other left.
\<close>

theorem autoTick_unguarded:
  assumes "dataMode s = LIVE_SEARCH" and "isAutoUpdate s"
    and "getAI (Some (apiKey s)) (env_API_KEY s) = Inr k"
  shows "pending (step AutoTick s) =
           pending s @ [AwaitFetch (nextCall s) (apiKey s) (userQuestion s)] \<and>
         data (step AutoTick s) = data s \<and>
         (\<forall>c1 c2 k1 q1 k2 q2 r1 t1 l1 res1 r2 t2 l2 res2.
            find_call c1 (pending s) = Some (AwaitFetch c1 k1 q1) \<longrightarrow>
            find_call c2 (pending s) = Some (AwaitFetch c2 k2 q2) \<longrightarrow>
            c1 \<noteq> c2 \<longrightarrow> data s \<noteq> [] \<longrightarrow>
            fetchSettle r1 t1 l1 = Inr res1 \<longrightarrow> fetchSettle r2 t2 l2 = Inr res2 \<longrightarrow>
            (\<exists>d1 d2. liveUpdate (data s) (dataPoint res1) = Inr d1 \<and>
                     liveUpdate d1 (dataPoint res2) = Inr d2 \<and>
                     data (step (FetchResolved c2 r2 t2 l2) (step (FetchResolved c1 r1 t1 l1) s)) = d2))"
proof (intro conjI allI impI)
  show "pending (step AutoTick s) =
           pending s @ [AwaitFetch (nextCall s) (apiKey s) (userQuestion s)]"
    using assms by (simp add: autoTick_def fetchLiveValues_started)
  show "data (step AutoTick s) = data s"
    using assms by (simp add: autoTick_def fetchLiveValues_started)
next
  fix c1 c2 k1 q1 k2 q2 r1 t1 l1 res1 r2 t2 l2 res2
  assume p1: "find_call c1 (pending s) = Some (AwaitFetch c1 k1 q1)"
    and p2: "find_call c2 (pending s) = Some (AwaitFetch c2 k2 q2)"
    and neq: "c1 \<noteq> c2" and ne: "data s \<noteq> []"
    and ok1: "fetchSettle r1 t1 l1 = Inr res1" and ok2: "fetchSettle r2 t2 l2 = Inr res2"
  let ?s1 = "fetchResolved c1 r1 t1 l1 s"
  let ?d1 = "drop 1 (map (adjustPoint (spotPrice (dataPoint res1) - spotPrice (last (data s)))) (data s))
           @ [dataPoint res1]"
  have d1: "data ?s1 = ?d1"
    using p1 ok1 ne by (rule fetchResolved_applies(1))
  have lu1: "liveUpdate (data s) (dataPoint res1) = Inr ?d1"
    using ne by (rule liveUpdate_Inr)
  have ne1: "data ?s1 \<noteq> []"
    unfolding d1 by simp
  from neq have "c2 \<noteq> c1" by simp
  from fetchResolved_applies(2) [OF p1 ok1 ne this]
  have p2': "find_call c2 (pending ?s1) = Some (AwaitFetch c2 k2 q2)"
    using p2 by simp
  let ?d2 = "drop 1 (map (adjustPoint (spotPrice (dataPoint res2) - spotPrice (last (data ?s1)))) (data ?s1))
           @ [dataPoint res2]"
  have d2: "data (fetchResolved c2 r2 t2 l2 ?s1) = ?d2"
    using p2' ok2 ne1 by (rule fetchResolved_applies(1))
  have lu2: "liveUpdate (data ?s1) (dataPoint res2) = Inr ?d2"
    using ne1 by (rule liveUpdate_Inr)
  show "\<exists>d1 d2. liveUpdate (data s) (dataPoint res1) = Inr d1 \<and>
                     liveUpdate d1 (dataPoint res2) = Inr d2 \<and>
                     data (step (FetchResolved c2 r2 t2 l2) (step (FetchResolved c1 r1 t1 l1) s)) = d2"
    apply (rule exI [of _ "data ?s1"], rule exI [of _ ?d2])
    using lu1 lu2 d1 d2 by simp
qed

text \<open>
  The theorem in a state with two cycles suspended: a third tick starts a third cycle,
  and the fetch of the second cycle, settling first with spot price 200, is applied
  before that of the first, settling with 150.
\<close>

theorem autoTick_unguarded_witness:
  "dataMode exBusy = LIVE_SEARCH \<and> isAutoUpdate exBusy \<and>
   getAI (Some (apiKey exBusy)) (env_API_KEY exBusy) = Inr ''key'' \<and>
   pending exBusy = [AwaitFetch 0 ''key'' [], AwaitFetch 1 ''key'' []] \<and>
   pending (step AutoTick exBusy) =
     [AwaitFetch 0 ''key'' [], AwaitFetch 1 ''key'' [], AwaitFetch 2 ''key'' []] \<and>
   map spotPrice (data (step (FetchResolved 0 (exReply 150) 6000 ''10:32'')
                          (step (FetchResolved 1 (exReply 200) 5000 ''10:31'') exBusy))) =
     [150, 150, 150]"
proof -
  have m: "dataMode exBusy = LIVE_SEARCH" and a: "isAutoUpdate exBusy"
    and k: "getAI (Some (apiKey exBusy)) (env_API_KEY exBusy) = Inr ''key''"
    and p: "pending exBusy = [AwaitFetch 0 ''key'' [], AwaitFetch 1 ''key'' []]"
    and n: "nextCall exBusy = 2" and q: "userQuestion exBusy = []" and ak: "apiKey exBusy = ''key''"
    and d: "data exBusy = exHistory"
    by (simp_all add: exBusy_eq exLive_def initialApp_def getAI_def)
  note t = autoTick_unguarded [OF m a k]
  from t have t1: "pending (step AutoTick exBusy) =
     [AwaitFetch 0 ''key'' [], AwaitFetch 1 ''key'' [], AwaitFetch 2 ''key'' []]"
    by (simp add: p n q ak)
  have f1: "find_call 1 (pending exBusy) = Some (AwaitFetch 1 ''key'' [])"
    and f0: "find_call 0 (pending exBusy) = Some (AwaitFetch 0 ''key'' [])"
    by (simp_all add: p find_call_def)
  have ne: "data exBusy \<noteq> []"
    by (simp add: d exHistory_def)
  have s1: "fetchSettle (exReply 200) 5000 ''10:31'' =
      Inr \<lparr>dataPoint = \<lparr>timestamp = 5000, timeLabel = ''10:31'', spotPrice = 200, futurePrice = 213,
                   openInterest = 470000, volume = 1000\<rparr>, optionSeries = [], sources = []\<rparr>"
    and s0: "fetchSettle (exReply 150) 6000 ''10:32'' =
      Inr \<lparr>dataPoint = \<lparr>timestamp = 6000, timeLabel = ''10:32'', spotPrice = 150, futurePrice = 163,
                   openInterest = 470000, volume = 1000\<rparr>, optionSeries = [], sources = []\<rparr>"
    by (simp_all add: exReply_settle)
  from t f1 f0 ne s1 s0
  obtain d1 d2 where
    u1: "liveUpdate (data exBusy)
       \<lparr>timestamp = 5000, timeLabel = ''10:31'', spotPrice = 200, futurePrice = 213,
        openInterest = 470000, volume = 1000\<rparr> = Inr d1"
    and u2: "liveUpdate d1
       \<lparr>timestamp = 6000, timeLabel = ''10:32'', spotPrice = 150, futurePrice = 163,
        openInterest = 470000, volume = 1000\<rparr> = Inr d2"
    and u3: "data (step (FetchResolved 0 (exReply 150) 6000 ''10:32'')
                          (step (FetchResolved 1 (exReply 200) 5000 ''10:31'') exBusy)) = d2"
    by (metis MarketFetchResult.select_convs(1) one_neq_zero)
  from u1 u2 have "map spotPrice d2 = [150, 150, 150]"
    by (auto simp: d exHistory_def mkPoint_def liveUpdate_def adjustPoint_def toFixed2_def Let_def)
  then have "map spotPrice (data (step (FetchResolved 0 (exReply 150) 6000 ''10:32'')
                          (step (FetchResolved 1 (exReply 200) 5000 ''10:31'') exBusy))) =
     [150, 150, 150]"
    unfolding u3 .
  with m a k p t1 show ?thesis by simp
qed

text \<open>
  C2 as stated fails: a second tick while the first cycle is suspended is not skipped, it
  starts a second cycle, and the two cycles then write the series one between the steps
  of the other. The fetch of the second cycle is applied first, that of the first cycle
  on top of it.
\<close>

theorem overlapping_ticks_interleave:
  "pending (run [AutoTick] exLive) = [AwaitFetch 0 ''key'' []] \<and>
   pending (run [AutoTick, AutoTick] exLive) = [AwaitFetch 0 ''key'' [], AwaitFetch 1 ''key'' []] \<and>
   map spotPrice (data (run [AutoTick, AutoTick, FetchResolved 1 (exReply 200) 5000 ''10:31'']
                          exLive)) = [201, 200, 200] \<and>
   map spotPrice (data (run [AutoTick, AutoTick, FetchResolved 1 (exReply 200) 5000 ''10:31'',
                             FetchResolved 0 (exReply 150) 6000 ''10:32''] exLive)) = [150, 150, 150] \<and>
   map timestamp (data (run [AutoTick, AutoTick, FetchResolved 1 (exReply 200) 5000 ''10:31'',
                             FetchResolved 0 (exReply 150) 6000 ''10:32''] exLive)) = [3000, 5000, 6000]"
  by code_simp

section \<open>A mode switch during a fetch\<close>

text \<open>
  C3, as the code has it. Switching from live to simulation mode leaves a suspended
  fetch suspended, and when that fetch then settles with a result, the result is
  applied to the stored series as in live mode: the history is shifted, the oldest
  point dropped and the fetched point appended, while the mode stays the simulation
  one. Nothing compares an epoch or the mode.
\<close>

theorem toggleMode_keeps_fetch:
  assumes "dataMode s = LIVE_SEARCH"
    and "find_call cid (pending s) = Some (AwaitFetch cid key q)"
    and "fetchSettle reply t lbl = Inr res"
    and "data s \<noteq> []"
  shows "dataMode (step ToggleModeClick s) = SIMULATION \<and>
         pending (step ToggleModeClick s) = pending s \<and>
         (\<exists>new. liveUpdate (data s) (dataPoint res) = Inr new \<and>
            data (step (FetchResolved cid reply t lbl) (step ToggleModeClick s)) = new \<and>
            dataMode (step (FetchResolved cid reply t lbl) (step ToggleModeClick s)) = SIMULATION)"
proof -
  let ?s1 = "toggleMode s"
  have m: "dataMode ?s1 = SIMULATION" and p: "pending ?s1 = pending s" and d: "data ?s1 = data s"
    using assms(1) by (simp_all add: toggleMode_def setAnalysisStatus_def Let_def)
  have pend: "find_call cid (pending ?s1) = Some (AwaitFetch cid key q)"
    using assms(2) p by simp
  have ne: "data ?s1 \<noteq> []"
    using assms(4) d by simp
  let ?new = "drop 1 (map (adjustPoint (spotPrice (dataPoint res) - spotPrice (last (data s)))) (data s))
           @ [dataPoint res]"
  have "data (fetchResolved cid reply t lbl ?s1) = ?new"
    using fetchResolved_applies(1) [OF pend assms(3) ne] d by simp
  moreover have "dataMode (fetchResolved cid reply t lbl ?s1) = SIMULATION"
    using fetchResolved_applies(3) [OF pend assms(3) ne] m by simp
  moreover have "liveUpdate (data s) (dataPoint res) = Inr ?new"
    using assms(4) by (rule liveUpdate_Inr)
  ultimately show ?thesis
    using m p by simp
qed

text \<open>The theorem in the state with one cycle suspended.\<close>

theorem toggleMode_keeps_fetch_witness:
  "dataMode exOne = LIVE_SEARCH \<and>
   find_call 0 (pending exOne) = Some (AwaitFetch 0 ''key'' []) \<and>
   data exOne \<noteq> [] \<and>
   dataMode (step ToggleModeClick exOne) = SIMULATION \<and>
   pending (step ToggleModeClick exOne) = [AwaitFetch 0 ''key'' []] \<and>
   map spotPrice (data (step (FetchResolved 0 (exReply 150) 6000 ''10:32'')
                          (step ToggleModeClick exOne))) = [151, 150, 150] \<and>
   dataMode (step (FetchResolved 0 (exReply 150) 6000 ''10:32'') (step ToggleModeClick exOne)) =
     SIMULATION"
proof -
  have m: "dataMode exOne = LIVE_SEARCH"
    and f: "find_call 0 (pending exOne) = Some (AwaitFetch 0 ''key'' [])"
    and ne: "data exOne \<noteq> []" and d: "data exOne = exHistory"
    and p: "pending exOne = [AwaitFetch 0 ''key'' []]"
    by (simp_all add: exOne_eq exLive_def initialApp_def exHistory_def find_call_def)
  have s0: "fetchSettle (exReply 150) 6000 ''10:32'' =
      Inr \<lparr>dataPoint = \<lparr>timestamp = 6000, timeLabel = ''10:32'', spotPrice = 150, futurePrice = 163,
                   openInterest = 470000, volume = 1000\<rparr>, optionSeries = [], sources = []\<rparr>"
    by (simp add: exReply_settle)
  from toggleMode_keeps_fetch [OF m f s0 ne]
  obtain new where t1: "dataMode (step ToggleModeClick exOne) = SIMULATION"
    and t2: "pending (step ToggleModeClick exOne) = pending exOne"
    and lu: "liveUpdate (data exOne)
       \<lparr>timestamp = 6000, timeLabel = ''10:32'', spotPrice = 150, futurePrice = 163,
        openInterest = 470000, volume = 1000\<rparr> = Inr new"
    and t3: "data (step (FetchResolved 0 (exReply 150) 6000 ''10:32'')
                          (step ToggleModeClick exOne)) = new"
    and t4: "dataMode (step (FetchResolved 0 (exReply 150) 6000 ''10:32'')
                          (step ToggleModeClick exOne)) = SIMULATION"
    by auto
  from lu have "map spotPrice new = [151, 150, 150]"
    by (auto simp: d exHistory_def mkPoint_def liveUpdate_def adjustPoint_def toFixed2_def Let_def)
  with m f ne t1 t2 t3 t4 p show ?thesis by simp
qed

text \<open>
  C3 as stated fails: a tick starts a fetch, the mode is switched to simulation, the
  fetch settles, and the stored series is the shifted history with the fetched point at
  its end.
\<close>

theorem stale_fetch_applied_after_mode_switch:
  "dataMode (run [AutoTick, ToggleModeClick] exLive) = SIMULATION \<and>
   data (run [AutoTick, ToggleModeClick] exLive) = exHistory \<and>
   data (run [AutoTick, ToggleModeClick, FetchResolved 0 (exReply 150) 6000 ''10:32''] exLive) =
     [mkPoint 2000 151 164 450100, mkPoint 3000 150 162 449900,
      \<lparr>timestamp = 6000, timeLabel = ''10:32'', spotPrice = 150, futurePrice = 163,
       openInterest = 470000, volume = 1000\<rparr>]"
  by code_simp

section \<open>The manual refresh\<close>

lemma refresh_clicks_blocked:
  "analysisStatus s = LOADING \<Longrightarrow> run (replicate n RefreshClick) s = s"
  unfolding run_def by (induction n) (simp_all add: refreshButton_def)

lemma handleManualRefresh_starts:
  assumes "getAI (Some (apiKey s)) (env_API_KEY s) = Inr k" and "data s \<noteq> []"
  shows "analysisStatus (handleManualRefresh s) = LOADING"
    and "data (handleManualRefresh s) = data s"
    and "pending (handleManualRefresh s) =
           pending s @
           [if dataMode s = LIVE_SEARCH then AwaitFetch (nextCall s) (apiKey s) (userQuestion s)
            else AwaitManual (nextCall s) (futurePrice (last (data s)) - spotPrice (last (data s)))]"
  using assms
  by (simp_all add: handleManualRefresh_def fetchLiveValues_started analyzePrefix_def
      setAnalysisStatus_def Let_def)

text \<open>
  C10, as the code has it. \<open>handleManualRefresh\<close> has no guard of its own: called with a
  key and a non-empty series, it sets the status to \<open>LOADING\<close> and starts a new cycle
  whatever is suspended, a fetch followed by an analysis in live mode and an analysis
  alone in simulation mode. But the refresh button that calls it is disabled while the
  status is \<open>LOADING\<close>: any number of clicks then changes nothing, and only in another
  status does a click call \<open>handleManualRefresh\<close>.
\<close>

theorem refresh_button_guard:
  "(analysisStatus s = LOADING \<longrightarrow> run (replicate n RefreshClick) s = s) \<and>
   (analysisStatus s \<noteq> LOADING \<longrightarrow> step RefreshClick s = handleManualRefresh s) \<and>
   (getAI (Some (apiKey s)) (env_API_KEY s) = Inr k \<longrightarrow> data s \<noteq> [] \<longrightarrow>
      analysisStatus (handleManualRefresh s) = LOADING \<and>
      data (handleManualRefresh s) = data s \<and>
      pending (handleManualRefresh s) =
        pending s @
        [if dataMode s = LIVE_SEARCH then AwaitFetch (nextCall s) (apiKey s) (userQuestion s)
         else AwaitManual (nextCall s) (futurePrice (last (data s)) - spotPrice (last (data s)))])"
proof (intro conjI impI)
  assume "analysisStatus s = LOADING"
  then show "run (replicate n RefreshClick) s = s"
    by (rule refresh_clicks_blocked)
next
  assume "analysisStatus s \<noteq> LOADING"
  then show "step RefreshClick s = handleManualRefresh s"
    by (simp add: refreshButton_def)
next
  assume k: "getAI (Some (apiKey s)) (env_API_KEY s) = Inr k" and ne: "data s \<noteq> []"
  show "analysisStatus (handleManualRefresh s) = LOADING"
    using k ne by (rule handleManualRefresh_starts(1))
  show "data (handleManualRefresh s) = data s"
    using k ne by (rule handleManualRefresh_starts(2))
  show "pending (handleManualRefresh s) =
        pending s @
        [if dataMode s = LIVE_SEARCH then AwaitFetch (nextCall s) (apiKey s) (userQuestion s)
         else AwaitManual (nextCall s) (futurePrice (last (data s)) - spotPrice (last (data s)))]"
    using k ne by (rule handleManualRefresh_starts(3))
qed

text \<open>
  The theorem in the state with one cycle suspended, where three clicks do nothing, and
  in the idle example state, where a click starts a cycle.
\<close>

theorem refresh_button_guard_witness:
  "analysisStatus exOne = LOADING \<and>
   run [RefreshClick, RefreshClick, RefreshClick] exOne = exOne \<and>
   analysisStatus exLive \<noteq> LOADING \<and>
   getAI (Some (apiKey exLive)) (env_API_KEY exLive) = Inr ''key'' \<and> data exLive \<noteq> [] \<and>
   step RefreshClick exLive = handleManualRefresh exLive \<and>
   analysisStatus (handleManualRefresh exLive) = LOADING \<and>
   pending (handleManualRefresh exLive) = [AwaitFetch 0 ''key'' []]"
proof -
  have l: "analysisStatus exOne = LOADING"
    by (simp add: exOne_eq)
  have i: "analysisStatus exLive \<noteq> LOADING" and ne: "data exLive \<noteq> []"
    and f: "dataMode exLive = LIVE_SEARCH" "pending exLive = []" "nextCall exLive = 0"
      "apiKey exLive = ''key''" "userQuestion exLive = []"
    by (simp_all add: exLive_def initialApp_def exHistory_def)
  have r: "replicate 3 RefreshClick = [RefreshClick, RefreshClick, RefreshClick]"
    by (simp add: numeral_3_eq_3)
  from refresh_button_guard [of exOne 3 "''key''"] l
  have a: "run [RefreshClick, RefreshClick, RefreshClick] exOne = exOne"
    unfolding r by blast
  from refresh_button_guard [of exLive 1 "''key''"] i exLive_key ne f
  have b: "step RefreshClick exLive = handleManualRefresh exLive \<and>
   analysisStatus (handleManualRefresh exLive) = LOADING \<and>
   pending (handleManualRefresh exLive) = [AwaitFetch 0 ''key'' []]"
    by simp
  from l a i exLive_key ne b show ?thesis by blast
qed

text \<open>
  C10 as stated fails: while the first cycle is suspended the status is \<open>LOADING\<close>, and a
  click on the refresh button starts no cycle.
\<close>

theorem refresh_blocked_while_loading:
  "analysisStatus (run [AutoTick] exLive) = LOADING \<and>
   pending (run [AutoTick] exLive) = [AwaitFetch 0 ''key'' []] \<and>
   pending (run [AutoTick, RefreshClick] exLive) = [AwaitFetch 0 ''key'' []] \<and>
   nextCall (run [AutoTick, RefreshClick] exLive) = nextCall (run [AutoTick] exLive)"
  by code_simp

end
